theory Spec2Isabelle
  imports Complex_Main "HOL-Library.Sublist"
begin

section \<open>Data model\<close>

text \<open>
  The exceptions of \<^verbatim>\<open>src/data_generation/generate_data.py\<close> that reach the caller.
  \<^item> \<open>ReadCsvError\<close>: whatever \<^verbatim>\<open>pd.read_csv\<close> raised (FileNotFoundError or any other);
    the loader logs it and raises it again.
  \<^item> \<open>ValueError msg\<close>: the loader's own \<^verbatim>\<open>ValueError(f"Missing required columns: ...")\<close>.
  \<^item> \<open>StrptimeValueError\<close>: the ValueError of \<^verbatim>\<open>datetime.strptime\<close>; its message is
    not modelled.
  \<^item> \<open>ZeroDivisionError\<close>: \<^verbatim>\<open>streams / config.PLAYLIST_ADDS_DIVISOR\<close> with a zero divisor.
  \<^item> \<open>OverflowError\<close>: \<^verbatim>\<open>start + timedelta(days=day_offset)\<close> past 9999-12-31.
\<close>

datatype pyerr =
    ReadCsvError
  | ValueError string
  | StrptimeValueError
  | ZeroDivisionError
  | OverflowError

text \<open>
  The module \<^verbatim>\<open>config\<close> is not part of the source files at hand; the constants that the
  generator reads from it are the fields of this record. Python floats are idealised as
  real numbers throughout: rounding, infinities and NaN are outside the model.
\<close>

record config =
  BASE_STREAM_MULTIPLIER_MIN :: real
  BASE_STREAM_MULTIPLIER_MAX :: real
  WEEKEND_BOOST_MIN :: real
  WEEKEND_BOOST_MAX :: real
  VIRAL_SPIKE_PROBABILITY :: real
  VIRAL_SPIKE_MULTIPLIER_MIN :: real
  VIRAL_SPIKE_MULTIPLIER_MAX :: real
  SUMMER_BOOST :: real
  PLAYLIST_ADDS_DIVISOR :: real

section \<open>The random source\<close>

text \<open>
  NumPy's process-wide generator is the stream of the unit draws it will still hand out:
  \<open>g 0\<close> is the next one. \<^verbatim>\<open>np.random.random()\<close> takes one draw;
  \<^verbatim>\<open>np.random.uniform(low, high)\<close> takes one draw \<open>u\<close> and returns
  \<open>low + (high - low) * u\<close>.
\<close>

type_synonym rng = "nat \<Rightarrow> real"

definition advance :: "nat \<Rightarrow> rng \<Rightarrow> rng" where
  "advance k g = (\<lambda>n. g (n + k))"

definition random_sample :: "rng \<Rightarrow> real \<times> rng" where
  "random_sample g = (g 0, advance 1 g)"

definition uniform :: "real \<Rightarrow> real \<Rightarrow> rng \<Rightarrow> real \<times> rng" where
  "uniform low high g = (case random_sample g of (u, g') \<Rightarrow> (low + (high - low) * u, g'))"

text \<open>The contract of the generator: every unit draw lies in the half-open interval [0, 1).\<close>

definition unit_draws :: "rng \<Rightarrow> bool" where
  "unit_draws g = (\<forall>n. 0 \<le> g n \<and> g n < 1)"

text \<open>Python's \<^verbatim>\<open>int(x)\<close> on a float: truncation toward zero.\<close>

definition py_int :: "real \<Rightarrow> int" where
  "py_int x = (if 0 \<le> x then \<lfloor>x\<rfloor> else \<lceil>x\<rceil>)"

section \<open>Dates\<close>

text \<open>
  A \<^verbatim>\<open>datetime\<close> at midnight is modelled by its proleptic Gregorian ordinal
  (\<^verbatim>\<open>toordinal()\<close>): day 1 is 0001-01-01 and the last day, 9999-12-31, is
  \<open>MAXORDINAL\<close>. Year, month and day are computed from the ordinal as CPython's
  \<^verbatim>\<open>_ord2ymd\<close> does, and the ordinal from them as \<^verbatim>\<open>_ymd2ord\<close> does.
\<close>

type_synonym datetime = int

definition MAXORDINAL :: int where
  "MAXORDINAL = 3652059"

definition is_leap :: "int \<Rightarrow> bool" where
  "is_leap year = (year mod 4 = 0 \<and> (year mod 100 \<noteq> 0 \<or> year mod 400 = 0))"

definition days_before_year :: "int \<Rightarrow> int" where
  "days_before_year year =
     (let y = year - 1 in y * 365 + y div 4 - y div 100 + y div 400)"

definition DAYS_IN_MONTH :: "int list" where
  "DAYS_IN_MONTH = [-1, 31, 28, 31, 30, 31, 30, 31, 31, 30, 31, 30, 31]"

definition DAYS_BEFORE_MONTH :: "int list" where
  "DAYS_BEFORE_MONTH = [-1, 0, 31, 59, 90, 120, 151, 181, 212, 243, 273, 304, 334]"

definition days_in_month :: "int \<Rightarrow> int \<Rightarrow> int" where
  "days_in_month year month =
     (if month = 2 \<and> is_leap year then 29 else DAYS_IN_MONTH ! nat month)"

definition days_before_month :: "int \<Rightarrow> int \<Rightarrow> int" where
  "days_before_month year month =
     DAYS_BEFORE_MONTH ! nat month + (if month > 2 \<and> is_leap year then 1 else 0)"

definition ymd2ord :: "int \<Rightarrow> int \<Rightarrow> int \<Rightarrow> datetime" where
  "ymd2ord year month day = days_before_year year + days_before_month year month + day"

definition ord2ymd :: "datetime \<Rightarrow> int \<times> int \<times> int" where
  "ord2ymd ordinal =
     (let n = ordinal - 1;
          n400 = n div 146097; n = n mod 146097;
          year = n400 * 400 + 1;
          n100 = n div 36524; n = n mod 36524;
          n4 = n div 1461; n = n mod 1461;
          n1 = n div 365; n = n mod 365;
          year = year + n100 * 100 + n4 * 4 + n1
      in if n1 = 4 \<or> n100 = 4 then (year - 1, 12, 31)
         else
           let leapyear = (n1 = 3 \<and> (n4 \<noteq> 24 \<or> n100 = 3));
               month = (n + 50) div 32;
               preceding = DAYS_BEFORE_MONTH ! nat month
                           + (if month > 2 \<and> leapyear then 1 else 0)
           in if preceding > n
              then let month = month - 1;
                       preceding = preceding
                         - (DAYS_IN_MONTH ! nat month + (if month = 2 \<and> leapyear then 1 else 0))
                   in (year, month, n - preceding + 1)
              else (year, month, n - preceding + 1))"

definition month_of :: "datetime \<Rightarrow> int" where
  "month_of date = (case ord2ymd date of (y, m, d) \<Rightarrow> m)"

text \<open>\<^verbatim>\<open>date.weekday()\<close>: Monday is 0 and Sunday is 6.\<close>

definition weekday :: "datetime \<Rightarrow> int" where
  "weekday date = (date + 6) mod 7"

text \<open>
  \<^verbatim>\<open>start + timedelta(days=k)\<close>: the day \<open>k\<close> days on, or OverflowError when that
  leaves the years 1 to 9999.
\<close>

definition add_days :: "datetime \<Rightarrow> int \<Rightarrow> pyerr + datetime" where
  "add_days start k =
     (if 0 < start + k \<and> start + k \<le> MAXORDINAL then Inr (start + k) else Inl OverflowError)"

subsection \<open>Parsing the start date\<close>

text \<open>
  \<^verbatim>\<open>datetime.strptime(s, "%Y-%m-%d")\<close> on an ASCII string. CPython matches the string
  against \<^verbatim>\<open>(\d\d\d\d)-(1[0-2]|0[1-9]|[1-9])-(3[0-1]|[1-2]\d|0[1-9]|[1-9]| [1-9])\<close>,
  refuses text left over after the match, and then builds the date, which refuses year 0
  and a day beyond the month's length. Every refusal is a ValueError.
\<close>

definition digit :: "char \<Rightarrow> int option" where
  "digit c = (let n = (of_char c :: nat) in
               if 48 \<le> n \<and> n \<le> 57 then Some (int n - 48) else None)"

fun parse_year :: "string \<Rightarrow> (int \<times> string) option" where
  "parse_year (a # b # c # d # rest) =
     (case (digit a, digit b, digit c, digit d) of
        (Some w, Some x, Some y, Some z) \<Rightarrow> Some (w * 1000 + x * 100 + y * 10 + z, rest)
      | _ \<Rightarrow> None)"
| "parse_year _ = None"

definition two_digits :: "string \<Rightarrow> (int \<times> int \<times> string) option" where
  "two_digits s =
     (case s of
        a # b # rest \<Rightarrow>
          (case (digit a, digit b) of (Some x, Some y) \<Rightarrow> Some (x, y, rest) | _ \<Rightarrow> None)
      | _ \<Rightarrow> None)"

definition one_digit :: "string \<Rightarrow> (int \<times> string) option" where
  "one_digit s =
     (case s of
        a # rest \<Rightarrow> (case digit a of Some x \<Rightarrow> Some (x, rest) | None \<Rightarrow> None)
      | _ \<Rightarrow> None)"

text \<open>The month group: \<^verbatim>\<open>1[0-2]\<close>, else \<^verbatim>\<open>0[1-9]\<close>, else \<^verbatim>\<open>[1-9]\<close>.\<close>

definition parse_month :: "string \<Rightarrow> (int \<times> string) option" where
  "parse_month s =
     (case two_digits s of
        Some (x, y, rest) \<Rightarrow>
          if x = 1 \<and> y \<le> 2 then Some (10 + y, rest)
          else if x = 0 \<and> 1 \<le> y then Some (y, rest)
          else if 1 \<le> x then Some (x, tl s)
          else None
      | None \<Rightarrow>
          (case one_digit s of
             Some (x, rest) \<Rightarrow> if 1 \<le> x then Some (x, rest) else None
           | None \<Rightarrow> None))"

text \<open>
  The day group: \<^verbatim>\<open>3[0-1]\<close>, else \<^verbatim>\<open>[1-2]\d\<close>, else \<^verbatim>\<open>0[1-9]\<close>, else
  \<^verbatim>\<open>[1-9]\<close>, else a blank and \<^verbatim>\<open>[1-9]\<close>.
\<close>

definition parse_day :: "string \<Rightarrow> (int \<times> string) option" where
  "parse_day s =
     (case two_digits s of
        Some (x, y, rest) \<Rightarrow>
          if x = 3 \<and> y \<le> 1 then Some (30 + y, rest)
          else if 1 \<le> x \<and> x \<le> 2 then Some (x * 10 + y, rest)
          else if x = 0 \<and> 1 \<le> y then Some (y, rest)
          else if 1 \<le> x then Some (x, tl s)
          else None
      | None \<Rightarrow>
          (case one_digit s of
             Some (x, rest) \<Rightarrow> if 1 \<le> x then Some (x, rest) else None
           | None \<Rightarrow>
               (case s of
                  a # rest \<Rightarrow>
                    if a = CHR '' '' then
                      (case one_digit rest of
                         Some (x, rest') \<Rightarrow> if 1 \<le> x then Some (x, rest') else None
                       | None \<Rightarrow> None)
                    else None
                | _ \<Rightarrow> None)))"

definition expect_dash :: "string \<Rightarrow> string option" where
  "expect_dash s = (case s of c # rest \<Rightarrow> if c = CHR ''-'' then Some rest else None | _ \<Rightarrow> None)"

definition match_ymd :: "string \<Rightarrow> (int \<times> int \<times> int) option" where
  "match_ymd s =
     (case parse_year s of
        None \<Rightarrow> None
      | Some (y, s1) \<Rightarrow>
          (case expect_dash s1 of
             None \<Rightarrow> None
           | Some s2 \<Rightarrow>
               (case parse_month s2 of
                  None \<Rightarrow> None
                | Some (m, s3) \<Rightarrow>
                    (case expect_dash s3 of
                       None \<Rightarrow> None
                     | Some s4 \<Rightarrow>
                         (case parse_day s4 of
                            None \<Rightarrow> None
                          | Some (d, s5) \<Rightarrow> if s5 = [] then Some (y, m, d) else None)))))"

definition strptime :: "string \<Rightarrow> pyerr + datetime" where
  "strptime s =
     (case match_ymd s of
        None \<Rightarrow> Inl StrptimeValueError
      | Some (y, m, d) \<Rightarrow>
          if 1 \<le> y \<and> d \<le> days_in_month y m then Inr (ymd2ord y m d)
          else Inl StrptimeValueError)"

section \<open>The streaming simulator\<close>

definition is_weekend :: "datetime \<Rightarrow> bool" where
  "is_weekend date = (weekday date \<in> set [4, 5])"

definition is_summer_month :: "datetime \<Rightarrow> bool" where
  "is_summer_month date = (month_of date \<in> set [6, 7, 8])"

text \<open>
  \<^verbatim>\<open>calculate_streams(popularity, date, base_streams)\<close>, with the generator passed in
  and handed back. The draws are taken in the order of the source: the weekend boost (on
  weekend days only), the viral test, the viral multiplier (when the test fires).
\<close>

definition calculate_streams :: "config \<Rightarrow> int \<Rightarrow> datetime \<Rightarrow> real \<Rightarrow> rng \<Rightarrow> int \<times> rng" where
  "calculate_streams cfg popularity date base_streams g =
     (let streams = base_streams;
          (streams, g) =
            (if is_weekend date
             then (case uniform (WEEKEND_BOOST_MIN cfg) (WEEKEND_BOOST_MAX cfg) g of
                     (u, g') \<Rightarrow> (let weekend_multiplier = 1 + u
                                 in (streams * weekend_multiplier, g')))
             else (streams, g));
          (r, g) = random_sample g;
          (streams, g) =
            (if r < VIRAL_SPIKE_PROBABILITY cfg
             then (case uniform (VIRAL_SPIKE_MULTIPLIER_MIN cfg)
                                (VIRAL_SPIKE_MULTIPLIER_MAX cfg) g of
                     (viral_multiplier, g') \<Rightarrow> (streams * viral_multiplier, g'))
             else (streams, g));
          streams = (if is_summer_month date then streams * (1 + SUMMER_BOOST cfg) else streams)
      in (py_int streams, g))"

text \<open>
  \<^verbatim>\<open>calculate_playlist_adds(streams)\<close>: the division of a Python int raises
  ZeroDivisionError on a zero divisor, before the variance is drawn.
\<close>

definition calculate_playlist_adds :: "config \<Rightarrow> int \<Rightarrow> rng \<Rightarrow> pyerr + (int \<times> rng)" where
  "calculate_playlist_adds cfg streams g =
     (if PLAYLIST_ADDS_DIVISOR cfg = 0 then Inl ZeroDivisionError
      else
        let base_adds = real_of_int streams / PLAYLIST_ADDS_DIVISOR cfg;
            (variance, g) = uniform (8 / 10) (12 / 10) g
        in Inr (py_int (base_adds * variance), g))"

text \<open>A row of the track catalog, with the four required columns.\<close>

record track =
  track_id :: string
  track_name :: string
  artists :: string
  popularity :: int

text \<open>
  A record of the output. The field \<open>date\<close> holds the day itself; the source stores its
  rendering \<^verbatim>\<open>strftime('%Y-%m-%d')\<close>.
\<close>

record streaming_record = track +
  date :: datetime
  streams :: int
  region :: string
  playlist_adds :: int

text \<open>
  The state of \<^verbatim>\<open>generate_streaming_data\<close> while it runs: the list
  \<^verbatim>\<open>streaming_records\<close> built so far and the generator.
\<close>

type_synonym gen_state = "streaming_record list \<times> rng"

text \<open>The body of the innermost loop (lines 80 to 99): one record is appended.\<close>

definition append_record ::
  "config \<Rightarrow> datetime \<Rightarrow> track \<Rightarrow> string \<Rightarrow> gen_state \<Rightarrow> pyerr + gen_state" where
  "append_record cfg current_date trk reg st =
     (case st of (streaming_records, g) \<Rightarrow>
        (case uniform (BASE_STREAM_MULTIPLIER_MIN cfg) (BASE_STREAM_MULTIPLIER_MAX cfg) g of
           (u, g) \<Rightarrow>
             (let base_streams = real_of_int (popularity trk) * u in
              case calculate_streams cfg (popularity trk) current_date base_streams g of
                (strms, g) \<Rightarrow>
                  (case calculate_playlist_adds cfg strms g of
                     Inl e \<Rightarrow> Inl e
                   | Inr (adds, g) \<Rightarrow>
                       Inr (streaming_records @
                              [\<lparr>track_id = track_id trk, track_name = track_name trk,
                                artists = artists trk, popularity = popularity trk,
                                date = current_date, streams = strms, region = reg,
                                playlist_adds = adds\<rparr>], g)))))"

text \<open>\<^verbatim>\<open>for region in regions\<close>\<close>

fun regions_loop ::
  "config \<Rightarrow> datetime \<Rightarrow> track \<Rightarrow> string list \<Rightarrow> gen_state \<Rightarrow> pyerr + gen_state" where
  "regions_loop cfg d trk [] st = Inr st"
| "regions_loop cfg d trk (reg # regs) st =
     (case append_record cfg d trk reg st of
        Inl e \<Rightarrow> Inl e
      | Inr st' \<Rightarrow> regions_loop cfg d trk regs st')"

text \<open>\<^verbatim>\<open>for _, track in tracks_df.iterrows()\<close>: the rows in their order\<close>

fun tracks_loop ::
  "config \<Rightarrow> datetime \<Rightarrow> track list \<Rightarrow> string list \<Rightarrow> gen_state \<Rightarrow> pyerr + gen_state" where
  "tracks_loop cfg d [] regs st = Inr st"
| "tracks_loop cfg d (trk # trks) regs st =
     (case regions_loop cfg d trk regs st of
        Inl e \<Rightarrow> Inl e
      | Inr st' \<Rightarrow> tracks_loop cfg d trks regs st')"

text \<open>
  \<^verbatim>\<open>for day_offset in range(num_days)\<close>, over the offsets still to come. The progress
  log is left out.
\<close>

fun days_loop ::
  "config \<Rightarrow> datetime \<Rightarrow> track list \<Rightarrow> string list \<Rightarrow> nat list \<Rightarrow> gen_state
     \<Rightarrow> pyerr + gen_state" where
  "days_loop cfg start trks regs [] st = Inr st"
| "days_loop cfg start trks regs (day_offset # offs) st =
     (case add_days start (int day_offset) of
        Inl e \<Rightarrow> Inl e
      | Inr current_date \<Rightarrow>
          (case tracks_loop cfg current_date trks regs st of
             Inl e \<Rightarrow> Inl e
           | Inr st' \<Rightarrow> days_loop cfg start trks regs offs st'))"

text \<open>\<^verbatim>\<open>range(n)\<close> for a Python int: empty when \<open>n\<close> is zero or negative.\<close>

definition range :: "int \<Rightarrow> nat list" where
  "range n = [0..<nat n]"

text \<open>
  \<^verbatim>\<open>generate_streaming_data(tracks_df, num_days, start_date, regions)\<close>: the records in
  the order they were appended, and the generator as the run leaves it.
\<close>

definition generate_streaming_data ::
  "config \<Rightarrow> track list \<Rightarrow> int \<Rightarrow> string \<Rightarrow> string list \<Rightarrow> rng
     \<Rightarrow> pyerr + (streaming_record list \<times> rng)" where
  "generate_streaming_data cfg tracks_df num_days start_date regions g =
     (case strptime start_date of
        Inl e \<Rightarrow> Inl e
      | Inr start \<Rightarrow> days_loop cfg start tracks_df regions (range num_days) ([], g))"

section \<open>The catalog loader\<close>

text \<open>
  A data frame as far as the loader looks at it: its column labels and its rows, in order.
\<close>

record 'r dataframe =
  columns :: "string list"
  rows :: "'r list"

definition required_columns :: "string list" where
  "required_columns = [''track_id'', ''track_name'', ''artists'', ''popularity'']"

text \<open>
  Python's \<^verbatim>\<open>repr\<close> of a list of strings that need no escaping, as the f-string of the
  error message prints it: \<^verbatim>\<open>['artists', 'popularity']\<close>.
\<close>

definition repr_str :: "string \<Rightarrow> string" where
  "repr_str s = [CHR 0x27] @ s @ [CHR 0x27]"

fun join :: "string \<Rightarrow> string list \<Rightarrow> string" where
  "join sep [] = []"
| "join sep [x] = x"
| "join sep (x # y # ys) = x @ sep @ join sep (y # ys)"

definition repr_list :: "string list \<Rightarrow> string" where
  "repr_list xs = ''['' @ join '', '' (map repr_str xs) @ '']''"

text \<open>
  \<^verbatim>\<open>load_spotify_dataset(dataset_path)\<close>. Reading the file is the parameter
  \<open>read_csv\<close>; both \<^verbatim>\<open>except\<close> clauses log the exception and raise it again.
\<close>

definition load_spotify_dataset ::
  "(string \<Rightarrow> pyerr + 'r dataframe) \<Rightarrow> string \<Rightarrow> pyerr + 'r dataframe" where
  "load_spotify_dataset read_csv dataset_path =
     (case read_csv dataset_path of
        Inl e \<Rightarrow> Inl e
      | Inr df \<Rightarrow>
          (let missing_columns = filter (\<lambda>col. col \<notin> set (columns df)) required_columns
           in if missing_columns \<noteq> []
              then Inl (ValueError (''Missing required columns: '' @ repr_list missing_columns))
              else Inr df))"

section \<open>The output described triple by triple\<close>

text \<open>
  The definitions of this section are not translations of source functions: they say, in
  closed form, what one (day, track, region) triple contributes when the generator is in
  state \<open>g\<close> at its start, and they list the triples in the order of the three loops.
  The theorems below compare the loops with them.
\<close>

text \<open>
  The position, among the draws of \<^verbatim>\<open>calculate_streams\<close>, of the draw that decides the
  viral spike: a weekend boost, when there is one, is drawn before it.
\<close>

definition viral_pos :: "datetime \<Rightarrow> nat" where
  "viral_pos d = (if is_weekend d then 1 else 0)"

text \<open>
  For a triple whose first draw is \<open>g 0\<close>: whether the spike fires, how many draws the
  stream count takes (the base multiplier included) and how many the whole triple takes
  (the variance of the playlist adds included).
\<close>

definition viral_fires :: "config \<Rightarrow> datetime \<Rightarrow> rng \<Rightarrow> bool" where
  "viral_fires cfg d g = (g (viral_pos d + 1) < VIRAL_SPIKE_PROBABILITY cfg)"

definition stream_draws :: "config \<Rightarrow> datetime \<Rightarrow> rng \<Rightarrow> nat" where
  "stream_draws cfg d g = viral_pos d + 2 + (if viral_fires cfg d g then 1 else 0)"

definition triple_draws :: "config \<Rightarrow> datetime \<Rightarrow> rng \<Rightarrow> nat" where
  "triple_draws cfg d g = stream_draws cfg d g + 1"

definition layered_streams :: "config \<Rightarrow> int \<Rightarrow> datetime \<Rightarrow> rng \<Rightarrow> int" where
  "layered_streams cfg pop d g =
     py_int (real_of_int pop
       * (BASE_STREAM_MULTIPLIER_MIN cfg
            + (BASE_STREAM_MULTIPLIER_MAX cfg - BASE_STREAM_MULTIPLIER_MIN cfg) * g 0)
       * (if is_weekend d
          then 1 + (WEEKEND_BOOST_MIN cfg + (WEEKEND_BOOST_MAX cfg - WEEKEND_BOOST_MIN cfg) * g 1)
          else 1)
       * (if viral_fires cfg d g
          then VIRAL_SPIKE_MULTIPLIER_MIN cfg
                 + (VIRAL_SPIKE_MULTIPLIER_MAX cfg - VIRAL_SPIKE_MULTIPLIER_MIN cfg)
                     * g (viral_pos d + 2)
          else 1)
       * (if is_summer_month d then 1 + SUMMER_BOOST cfg else 1))"

definition derived_adds :: "config \<Rightarrow> int \<Rightarrow> real \<Rightarrow> int" where
  "derived_adds cfg strms u =
     py_int (real_of_int strms / PLAYLIST_ADDS_DIVISOR cfg * (8 / 10 + (12 / 10 - 8 / 10) * u))"

definition triple_record :: "config \<Rightarrow> datetime \<Rightarrow> track \<Rightarrow> string \<Rightarrow> rng \<Rightarrow> streaming_record" where
  "triple_record cfg d trk reg g =
     \<lparr>track_id = track_id trk, track_name = track_name trk, artists = artists trk,
      popularity = popularity trk, date = d,
      streams = layered_streams cfg (popularity trk) d g, region = reg,
      playlist_adds =
        derived_adds cfg (layered_streams cfg (popularity trk) d g) (g (stream_draws cfg d g))\<rparr>"

text \<open>The draws that a list of triples takes, and the records it yields, from state \<open>g\<close>.\<close>

fun draws_used :: "config \<Rightarrow> (datetime \<times> track \<times> string) list \<Rightarrow> rng \<Rightarrow> nat" where
  "draws_used cfg [] g = 0"
| "draws_used cfg ((d, trk, reg) # ts) g =
     triple_draws cfg d g + draws_used cfg ts (advance (triple_draws cfg d g) g)"

fun records_of :: "config \<Rightarrow> (datetime \<times> track \<times> string) list \<Rightarrow> rng \<Rightarrow> streaming_record list" where
  "records_of cfg [] g = []"
| "records_of cfg ((d, trk, reg) # ts) g =
     triple_record cfg d trk reg g # records_of cfg ts (advance (triple_draws cfg d g) g)"

text \<open>The triples in day-major order, then track, then region.\<close>

definition triples ::
  "datetime \<Rightarrow> nat list \<Rightarrow> track list \<Rightarrow> string list \<Rightarrow> (datetime \<times> track \<times> string) list" where
  "triples start offs trks regs =
     map (\<lambda>(k, trk, reg). (start + int k, trk, reg)) (List.product offs (List.product trks regs))"

section \<open>Example inputs\<close>

text \<open>Concrete inputs on which the theorems below are instantiated.\<close>

definition cfg_example :: config where
  "cfg_example =
     \<lparr>BASE_STREAM_MULTIPLIER_MIN = 100, BASE_STREAM_MULTIPLIER_MAX = 200,
      WEEKEND_BOOST_MIN = 1 / 10, WEEKEND_BOOST_MAX = 3 / 10,
      VIRAL_SPIKE_PROBABILITY = 1 / 4,
      VIRAL_SPIKE_MULTIPLIER_MIN = 2, VIRAL_SPIKE_MULTIPLIER_MAX = 4,
      SUMMER_BOOST = 1 / 10, PLAYLIST_ADDS_DIVISOR = 10\<rparr>"

definition track_a :: track where
  "track_a = \<lparr>track_id = ''t1'', track_name = ''Song A'', artists = ''Artist A'', popularity = 50\<rparr>"

definition track_zero :: track where
  "track_zero = \<lparr>track_id = ''t2'', track_name = ''Song B'', artists = ''Artist B'', popularity = 0\<rparr>"

text \<open>A generator whose every draw is one half, and one that repeats four draws.\<close>

definition half_rng :: rng where
  "half_rng = (\<lambda>n. 1 / 2)"

definition cycle_rng :: rng where
  "cycle_rng = (\<lambda>n. [1 / 2, 1 / 4, 0, 3 / 4] ! (n mod 4))"

text \<open>The example configuration with a zero and with a negative divisor.\<close>

definition cfg_zero_divisor :: config where
  "cfg_zero_divisor = cfg_example\<lparr>PLAYLIST_ADDS_DIVISOR := 0\<rparr>"

definition cfg_negative_divisor :: config where
  "cfg_negative_divisor = cfg_example\<lparr>PLAYLIST_ADDS_DIVISOR := - 7\<rparr>"

text \<open>The example configuration with the base range the wrong way round.\<close>

definition cfg_reversed :: config where
  "cfg_reversed =
     cfg_example\<lparr>BASE_STREAM_MULTIPLIER_MIN := 200, BASE_STREAM_MULTIPLIER_MAX := 100\<rparr>"

text \<open>
  The output for both tracks over the two days from Saturday 2024-06-08 (day 739045) in
  two regions, with the example configuration and the repeating generator.
\<close>

definition example_output :: "streaming_record list" where
  "example_output =
     [\<lparr>track_id = ''t1'', track_name = ''Song A'', artists = ''Artist A'', popularity = 50,
       date = 739045, streams = 33206, region = ''US'', playlist_adds = 3320\<rparr>,
      \<lparr>track_id = ''t1'', track_name = ''Song A'', artists = ''Artist A'', popularity = 50,
       date = 739045, streams = 7562, region = ''GB'', playlist_adds = 756\<rparr>,
      \<lparr>track_id = ''t2'', track_name = ''Song B'', artists = ''Artist B'', popularity = 0,
       date = 739045, streams = 0, region = ''US'', playlist_adds = 0\<rparr>,
      \<lparr>track_id = ''t2'', track_name = ''Song B'', artists = ''Artist B'', popularity = 0,
       date = 739045, streams = 0, region = ''GB'', playlist_adds = 0\<rparr>,
      \<lparr>track_id = ''t1'', track_name = ''Song A'', artists = ''Artist A'', popularity = 50,
       date = 739046, streams = 24062, region = ''US'', playlist_adds = 2406\<rparr>,
      \<lparr>track_id = ''t1'', track_name = ''Song A'', artists = ''Artist A'', popularity = 50,
       date = 739046, streams = 24062, region = ''GB'', playlist_adds = 2406\<rparr>,
      \<lparr>track_id = ''t2'', track_name = ''Song B'', artists = ''Artist B'', popularity = 0,
       date = 739046, streams = 0, region = ''US'', playlist_adds = 0\<rparr>,
      \<lparr>track_id = ''t2'', track_name = ''Song B'', artists = ''Artist B'', popularity = 0,
       date = 739046, streams = 0, region = ''GB'', playlist_adds = 0\<rparr>]"

text \<open>A reader that finds the given frame at every path.\<close>

definition read_always :: "'r dataframe \<Rightarrow> string \<Rightarrow> pyerr + 'r dataframe" where
  "read_always df path = Inr df"

definition df_complete :: "track dataframe" where
  "df_complete =
     \<lparr>columns = [''track_id'', ''album_name'', ''track_name'', ''artists'', ''popularity''],
      rows = [track_a, track_zero]\<rparr>"

definition df_incomplete :: "track dataframe" where
  "df_incomplete = \<lparr>columns = [''track_id'', ''album_name'', ''track_name''], rows = [track_a]\<rparr>"

section \<open>Auxiliary facts\<close>

subsection \<open>The generator\<close>

lemma advance_apply: "advance k g n = g (n + k)"
  by (simp add: advance_def)

lemma advance_0: "advance 0 g = g"
  by (simp add: advance_def)

lemma advance_advance: "advance a (advance b g) = advance (a + b) g"
  by (simp add: advance_def fun_eq_iff ac_simps)

lemma random_sample_eq: "random_sample g = (g 0, advance 1 g)"
  by (simp add: random_sample_def)

lemma uniform_eq: "uniform lo hi g = (lo + (hi - lo) * g 0, advance 1 g)"
  by (simp add: uniform_def random_sample_def)

subsection \<open>Dates\<close>

lemma digit_range: "digit c = Some x \<Longrightarrow> 0 \<le> x \<and> x \<le> 9"
  by (auto simp: digit_def Let_def split: if_splits)

lemma parse_year_range: "parse_year s = Some (y, rest) \<Longrightarrow> 0 \<le> y \<and> y \<le> 9999"
  apply (cases s rule: parse_year.cases)
  apply (auto split: option.splits dest!: digit_range)
  done

lemma parse_month_range: "parse_month s = Some (m, rest) \<Longrightarrow> 1 \<le> m \<and> m \<le> 12"
  by (auto simp: parse_month_def two_digits_def one_digit_def split: option.splits list.splits if_splits dest!: digit_range)

lemma parse_day_range: "parse_day s = Some (d, rest) \<Longrightarrow> 1 \<le> d \<and> d \<le> 31"
  by (auto simp: parse_day_def two_digits_def one_digit_def split: option.splits list.splits if_splits dest!: digit_range)

lemma match_ymd_range:
  "match_ymd s = Some (y, m, d) \<Longrightarrow> 0 \<le> y \<and> y \<le> 9999 \<and> 1 \<le> m \<and> m \<le> 12 \<and> 1 \<le> d"
  by (auto simp: match_ymd_def split: option.splits if_splits
      dest!: parse_year_range parse_month_range parse_day_range)

lemma days_before_year_bounds:
  assumes "1 \<le> y" "y \<le> 9999"
  shows "0 \<le> days_before_year y \<and> days_before_year y \<le> 3651694"
proof -
  define z where "z = y - 1"
  define w where "w = z div 4"
  define q where "q = w div 25"
  define p where "p = q div 4"
  have z: "0 \<le> z" "z \<le> 9998" using assms by (simp_all add: z_def)
  have w: "0 \<le> w" "w \<le> 2499" using z unfolding w_def by linarith+
  have q: "0 \<le> q" "q \<le> 99" "w \<le> 25 * q + 24" "25 * q \<le> w"
    using w unfolding q_def by linarith+
  have p: "0 \<le> p" "p \<le> 24" "4 * p \<le> q" using q unfolding p_def by linarith+
  have d100: "z div 100 = q"
    unfolding q_def w_def using zdiv_zmult2_eq [of 25 z 4] by simp
  have d400: "z div 400 = p"
    unfolding p_def q_def w_def
    using zdiv_zmult2_eq [of 25 z 4] zdiv_zmult2_eq [of 4 z 100] by simp
  have eq: "days_before_year y = z * 365 + w - q + p"
    unfolding days_before_year_def Let_def d100 [symmetric] d400 [symmetric] w_def z_def ..
  show ?thesis unfolding eq using z w q p by linarith
qed

lemma month_cases:
  "1 \<le> m \<Longrightarrow> m \<le> 12 \<Longrightarrow> m \<in> {1,2,3,4,5,6,7,8,9,10,11,12::int}"
  by simp presburger

lemma days_in_year_bound:
  "1 \<le> m \<Longrightarrow> m \<le> 12 \<Longrightarrow> 1 \<le> d \<Longrightarrow> d \<le> days_in_month y m \<Longrightarrow>
     1 \<le> days_before_month y m + d \<and> days_before_month y m + d \<le> 366"
  apply (drule (1) month_cases)
  apply (auto simp: days_in_month_def days_before_month_def DAYS_IN_MONTH_def DAYS_BEFORE_MONTH_def split: if_splits)
  done

lemma days_in_year_bound_nonleap:
  "1 \<le> m \<Longrightarrow> m \<le> 12 \<Longrightarrow> 1 \<le> d \<Longrightarrow> d \<le> days_in_month y m \<Longrightarrow> \<not> is_leap y \<Longrightarrow>
     days_before_month y m + d \<le> 365"
  apply (drule (1) month_cases)
  apply (auto simp: days_in_month_def days_before_month_def DAYS_IN_MONTH_def DAYS_BEFORE_MONTH_def split: if_splits)
  done

lemma days_before_year_leap:
  assumes "1 \<le> y" "y \<le> 9999" "is_leap y"
  shows "days_before_year y \<le> 3651693"
proof -
  define z where "z = y - 1"
  define a where "a = z div 4"
  define b where "b = z div 100"
  define c where "c = z div 400"
  from assms have "y mod 4 = 0" by (simp add: is_leap_def)
  with assms have z: "0 \<le> z" "z \<le> 9995" unfolding z_def by presburger+
  have a: "a \<le> 2498" using z unfolding a_def by linarith
  have b: "0 \<le> b" using z unfolding b_def by simp
  have c: "c \<le> 24" using z unfolding c_def by linarith
  have eq: "days_before_year y = z * 365 + a - b + c"
    unfolding days_before_year_def Let_def a_def b_def c_def z_def ..
  show ?thesis unfolding eq using z a b c by linarith
qed

lemma ymd2ord_range:
  assumes "1 \<le> y" "y \<le> 9999" "1 \<le> m" "m \<le> 12" "1 \<le> d" "d \<le> days_in_month y m"
  shows "0 < ymd2ord y m d \<and> ymd2ord y m d \<le> MAXORDINAL"
proof (cases "is_leap y")
  case True
  with assms days_before_year_leap [of y] days_before_year_bounds [of y]
    days_in_year_bound [of m d y]
  show ?thesis by (simp add: ymd2ord_def MAXORDINAL_def)
next
  case False
  with assms days_before_year_bounds [of y] days_in_year_bound [of m d y]
    days_in_year_bound_nonleap [of m d y]
  show ?thesis by (simp add: ymd2ord_def MAXORDINAL_def)
qed

lemma strptime_range:
  assumes "strptime s = Inr start"
  shows "0 < start \<and> start \<le> MAXORDINAL"
proof -
  from assms obtain y m d where m: "match_ymd s = Some (y, m, d)"
    and v: "1 \<le> y" "d \<le> days_in_month y m" and st: "start = ymd2ord y m d"
    by (auto simp: strptime_def split: option.splits if_splits)
  from match_ymd_range [OF m] v show ?thesis
    unfolding st by (intro ymd2ord_range) auto
qed

lemma strptime_error: "strptime s = Inl e \<Longrightarrow> e = StrptimeValueError"
  by (auto simp: strptime_def split: option.splits if_splits)

subsection \<open>One triple\<close>

lemma calculate_streams_closed:
  "calculate_streams cfg p d b g =
    (py_int (b
       * (if is_weekend d
          then 1 + (WEEKEND_BOOST_MIN cfg + (WEEKEND_BOOST_MAX cfg - WEEKEND_BOOST_MIN cfg) * g 0)
          else 1)
       * (if g (viral_pos d) < VIRAL_SPIKE_PROBABILITY cfg
          then VIRAL_SPIKE_MULTIPLIER_MIN cfg
                 + (VIRAL_SPIKE_MULTIPLIER_MAX cfg - VIRAL_SPIKE_MULTIPLIER_MIN cfg)
                     * g (viral_pos d + 1)
          else 1)
       * (if is_summer_month d then 1 + SUMMER_BOOST cfg else 1)),
     advance (viral_pos d + 1 + (if g (viral_pos d) < VIRAL_SPIKE_PROBABILITY cfg then 1 else 0)) g)"
  by (simp add: calculate_streams_def uniform_eq random_sample_eq viral_pos_def Let_def
      advance_apply advance_advance)

lemma append_record_ok:
  assumes "PLAYLIST_ADDS_DIVISOR cfg \<noteq> 0"
  shows "append_record cfg d trk reg (acc, g) =
           Inr (acc @ [triple_record cfg d trk reg g], advance (triple_draws cfg d g) g)"
  using assms
  by (simp add: append_record_def uniform_eq calculate_streams_closed calculate_playlist_adds_def
      triple_record_def layered_streams_def derived_adds_def stream_draws_def triple_draws_def
      viral_fires_def advance_apply advance_advance Let_def)

lemma append_record_zero:
  assumes "PLAYLIST_ADDS_DIVISOR cfg = 0"
  shows "append_record cfg d trk reg st = Inl ZeroDivisionError"
  using assms
  by (cases st) (simp add: append_record_def uniform_eq calculate_streams_closed
      calculate_playlist_adds_def)


subsection \<open>The loops on a run that does not fail\<close>

lemma draws_used_append:
  "draws_used cfg (xs @ ys) g
     = draws_used cfg xs g + draws_used cfg ys (advance (draws_used cfg xs g) g)"
  by (induction cfg xs g rule: draws_used.induct) (simp_all add: advance_0 advance_advance ac_simps)

lemma records_of_append:
  "records_of cfg (xs @ ys) g
     = records_of cfg xs g @ records_of cfg ys (advance (draws_used cfg xs g) g)"
  by (induction cfg xs g rule: records_of.induct) (simp_all add: advance_0 advance_advance ac_simps)

lemma length_records_of: "length (records_of cfg ts g) = length ts"
  by (induction cfg ts g rule: records_of.induct) simp_all

lemma records_of_nth:
  "i < length ts \<Longrightarrow>
     records_of cfg ts g ! i =
       (case ts ! i of (d, trk, reg) \<Rightarrow>
          triple_record cfg d trk reg (advance (draws_used cfg (take i ts) g) g))"
proof (induction cfg ts g arbitrary: i rule: records_of.induct)
  case (1 cfg g)
  then show ?case by simp
next
  case (2 cfg d trk reg ts g)
  show ?case
  proof (cases i)
    case 0
    then show ?thesis by (simp add: advance_0)
  next
    case (Suc j)
    with "2.prems" have "j < length ts" by simp
    from "2.IH" [OF this] Suc show ?thesis
      by (simp add: advance_advance ac_simps)
  qed
qed

lemma regions_loop_ok:
  assumes "PLAYLIST_ADDS_DIVISOR cfg \<noteq> 0"
  shows "regions_loop cfg d trk regs (acc, g) =
           Inr (acc @ records_of cfg (map (\<lambda>reg. (d, trk, reg)) regs) g,
                advance (draws_used cfg (map (\<lambda>reg. (d, trk, reg)) regs) g) g)"
  by (induction regs arbitrary: acc g)
     (simp_all add: append_record_ok [OF assms] advance_0 advance_advance ac_simps)

lemma tracks_loop_ok:
  assumes "PLAYLIST_ADDS_DIVISOR cfg \<noteq> 0"
  shows "tracks_loop cfg d trks regs (acc, g) =
           Inr (acc @ records_of cfg (map (\<lambda>(trk, reg). (d, trk, reg)) (List.product trks regs)) g,
                advance (draws_used cfg (map (\<lambda>(trk, reg). (d, trk, reg)) (List.product trks regs)) g) g)"
  by (induction trks arbitrary: acc g)
     (simp_all add: regions_loop_ok [OF assms] advance_0 advance_advance ac_simps
        records_of_append draws_used_append comp_def)

lemma days_loop_ok:
  assumes "PLAYLIST_ADDS_DIVISOR cfg \<noteq> 0"
    and "\<forall>k \<in> set offs. 0 < start + int k \<and> start + int k \<le> MAXORDINAL"
  shows "days_loop cfg start trks regs offs (acc, g) =
           Inr (acc @ records_of cfg (triples start offs trks regs) g,
                advance (draws_used cfg (triples start offs trks regs) g) g)"
  using assms(2)
  by (induction offs arbitrary: acc g)
     (simp_all add: tracks_loop_ok [OF assms(1)] advance_0 advance_advance ac_simps
        records_of_append draws_used_append comp_def triples_def add_days_def case_prod_unfold)


subsection \<open>The loops on a run that fails\<close>

lemma regions_loop_zero:
  "PLAYLIST_ADDS_DIVISOR cfg = 0 \<Longrightarrow> regs \<noteq> [] \<Longrightarrow>
     regions_loop cfg d trk regs st = Inl ZeroDivisionError"
  by (cases regs) (simp_all add: append_record_zero)

lemma tracks_loop_zero:
  "PLAYLIST_ADDS_DIVISOR cfg = 0 \<Longrightarrow> trks \<noteq> [] \<Longrightarrow> regs \<noteq> [] \<Longrightarrow>
     tracks_loop cfg d trks regs st = Inl ZeroDivisionError"
  by (cases trks) (simp_all add: regions_loop_zero)

lemma tracks_loop_no_regions: "tracks_loop cfg d trks [] st = Inr st"
  by (induction trks) simp_all

lemma tracks_loop_idle:
  "trks = [] \<or> regs = [] \<Longrightarrow> tracks_loop cfg d trks regs st = Inr st"
  by (auto simp: tracks_loop_no_regions)

lemma product_Nil_right: "List.product xs [] = []"
  by (induction xs) simp_all

lemma triples_idle: "trks = [] \<or> regs = [] \<Longrightarrow> triples start offs trks regs = []"
  by (auto simp: triples_def product_Nil_right)

lemma days_loop_idle:
  assumes "trks = [] \<or> regs = []"
    and "\<forall>k \<in> set offs. 0 < start + int k \<and> start + int k \<le> MAXORDINAL"
  shows "days_loop cfg start trks regs offs st = Inr st"
  using assms(2)
  by (induction offs) (simp_all add: tracks_loop_idle [OF assms(1)] add_days_def)

lemma tracks_loop_total:
  assumes "PLAYLIST_ADDS_DIVISOR cfg \<noteq> 0 \<or> trks = [] \<or> regs = []"
  shows "\<exists>st'. tracks_loop cfg d trks regs st = Inr st'"
proof (cases "trks = [] \<or> regs = []")
  case True
  then show ?thesis by (simp add: tracks_loop_idle)
next
  case False
  with assms have "PLAYLIST_ADDS_DIVISOR cfg \<noteq> 0" by blast
  then show ?thesis by (cases st) (simp add: tracks_loop_ok)
qed

lemma days_loop_overflow:
  assumes "PLAYLIST_ADDS_DIVISOR cfg \<noteq> 0 \<or> trks = [] \<or> regs = []"
    and "\<exists>k \<in> set offs. \<not> (0 < start + int k \<and> start + int k \<le> MAXORDINAL)"
  shows "days_loop cfg start trks regs offs st = Inl OverflowError"
  using assms(2)
proof (induction offs arbitrary: st)
  case Nil
  then show ?case by simp
next
  case (Cons k ks)
  show ?case
  proof (cases "0 < start + int k \<and> start + int k \<le> MAXORDINAL")
    case False
    then show ?thesis by (auto simp: add_days_def)
  next
    case True
    with Cons.prems have rest: "\<exists>k \<in> set ks. \<not> (0 < start + int k \<and> start + int k \<le> MAXORDINAL)"
      by auto
    from tracks_loop_total [OF assms(1)] obtain st' where
      "tracks_loop cfg (start + int k) trks regs st = Inr st'" by blast
    with True Cons.IH [OF rest] show ?thesis by (simp add: add_days_def)
  qed
qed

lemma days_loop_zero:
  assumes "PLAYLIST_ADDS_DIVISOR cfg = 0" "trks \<noteq> []" "regs \<noteq> []"
    and "0 < start + int k \<and> start + int k \<le> MAXORDINAL"
  shows "days_loop cfg start trks regs (k # ks) st = Inl ZeroDivisionError"
  using assms by (simp add: add_days_def tracks_loop_zero)

lemma range_nonpos: "n \<le> 0 \<Longrightarrow> range n = []"
  by (simp add: range_def)

lemma range_pos: "0 < n \<Longrightarrow> range n = 0 # [1..<nat n]"
  by (simp add: range_def upt_conv_Cons)

lemma range_in_bounds:
  assumes "0 < start" "start + n - 1 \<le> MAXORDINAL"
  shows "\<forall>k \<in> set (range n). 0 < start + int k \<and> start + int k \<le> MAXORDINAL"
  using assms by (auto simp: range_def)

lemma range_out_of_bounds:
  assumes "0 < n" "MAXORDINAL < start + n - 1"
  shows "\<exists>k \<in> set (range n). \<not> (0 < start + int k \<and> start + int k \<le> MAXORDINAL)"
proof -
  from assms have "nat (n - 1) \<in> set (range n)" by (auto simp: range_def)
  moreover from assms have "\<not> (start + int (nat (n - 1)) \<le> MAXORDINAL)" by simp
  ultimately show ?thesis by blast
qed


subsection \<open>The whole run\<close>

lemma generate_cases:
  "generate_streaming_data cfg trks n s regs g =
     (case strptime s of
        Inl e \<Rightarrow> Inl StrptimeValueError
      | Inr start \<Rightarrow>
          if n \<le> 0 then Inr ([], g)
          else if PLAYLIST_ADDS_DIVISOR cfg = 0 \<and> trks \<noteq> [] \<and> regs \<noteq> []
            then Inl ZeroDivisionError
          else if MAXORDINAL < start + n - 1 then Inl OverflowError
          else Inr (records_of cfg (triples start (range n) trks regs) g,
                    advance (draws_used cfg (triples start (range n) trks regs) g) g))"
proof (cases "strptime s")
  case (Inl e)
  then show ?thesis by (simp add: generate_streaming_data_def strptime_error)
next
  case (Inr start)
  note start = strptime_range [OF Inr]
  have gen: "generate_streaming_data cfg trks n s regs g
               = days_loop cfg start trks regs (range n) ([], g)"
    by (simp add: generate_streaming_data_def Inr)
  consider (empty) "n \<le> 0"
    | (zero) "0 < n" "PLAYLIST_ADDS_DIVISOR cfg = 0 \<and> trks \<noteq> [] \<and> regs \<noteq> []"
    | (over) "0 < n" "\<not> (PLAYLIST_ADDS_DIVISOR cfg = 0 \<and> trks \<noteq> [] \<and> regs \<noteq> [])"
        "MAXORDINAL < start + n - 1"
    | (fine) "0 < n" "\<not> (PLAYLIST_ADDS_DIVISOR cfg = 0 \<and> trks \<noteq> [] \<and> regs \<noteq> [])"
        "start + n - 1 \<le> MAXORDINAL"
    by linarith
  then show ?thesis
  proof cases
    case empty
    then show ?thesis by (simp add: gen Inr range_nonpos)
  next
    case zero
    from start have "0 < start + int 0 \<and> start + int 0 \<le> MAXORDINAL" by simp
    with zero days_loop_zero [of cfg trks regs start 0 "[1..<nat n]" "([], g)"]
    show ?thesis by (simp add: gen Inr range_pos)
  next
    case over
    from over(2) have "PLAYLIST_ADDS_DIVISOR cfg \<noteq> 0 \<or> trks = [] \<or> regs = []" by blast
    from days_loop_overflow [OF this range_out_of_bounds [OF over(1) over(3)]] over
    show ?thesis by (simp add: gen Inr)
  next
    case fine
    note inb = range_in_bounds [OF start [THEN conjunct1] fine(3)]
    show ?thesis
    proof (cases "PLAYLIST_ADDS_DIVISOR cfg = 0")
      case True
      with fine(2) have idle: "trks = [] \<or> regs = []" by blast
      from days_loop_idle [OF idle inb] fine triples_idle [OF idle]
      show ?thesis by (simp add: gen Inr advance_0)
    next
      case False
      from days_loop_ok [OF False inb] fine show ?thesis by (simp add: gen Inr)
    qed
  qed
qed

subsection \<open>Positions in the output\<close>

lemma length_triples:
  "length (triples start offs trks regs) = length offs * (length trks * length regs)"
  by (simp add: triples_def)

lemma triples_nth:
  assumes "i < length offs * (length trks * length regs)"
  shows "triples start offs trks regs ! i =
           (start + int (offs ! (i div (length trks * length regs))),
            trks ! (i mod (length trks * length regs) div length regs),
            regs ! (i mod length regs))"
proof -
  let ?m = "length trks * length regs"
  from assms have pos: "0 < ?m" by (cases "?m = 0") auto
  then have "i mod ?m < ?m" by simp
  moreover have "i mod ?m mod length regs = i mod length regs"
    by (simp add: mod_mult2_eq' mod_mod_cancel)
  ultimately show ?thesis
    using assms by (simp add: triples_def product_nth)
qed

lemma div_mod_block:
  fixes b m k :: nat
  assumes "b < m"
  shows "(k * m + b) div m = k" and "(k * m + b) mod m = b"
  using assms by simp_all

lemma triples_index_bound:
  assumes "k < length offs" "ti < length trks" "ri < length regs"
  shows "(k * length trks + ti) * length regs + ri < length offs * (length trks * length regs)"
proof -
  let ?T = "length trks" and ?R = "length regs"
  have "ti * ?R + ri < ti * ?R + ?R" using assms(3) by simp
  also have "\<dots> = Suc ti * ?R" by simp
  also have "\<dots> \<le> ?T * ?R" using assms(2) by (intro mult_le_mono1) simp
  finally have "k * (?T * ?R) + (ti * ?R + ri) < k * (?T * ?R) + ?T * ?R" by simp
  also have "\<dots> = Suc k * (?T * ?R)" by simp
  also have "\<dots> \<le> length offs * (?T * ?R)" using assms(1) by (intro mult_le_mono1) simp
  finally show ?thesis by (simp add: algebra_simps)
qed

lemma triples_nth_composed:
  assumes "k < length offs" "ti < length trks" "ri < length regs"
  shows "triples start offs trks regs ! ((k * length trks + ti) * length regs + ri) =
           (start + int (offs ! k), trks ! ti, regs ! ri)"
proof -
  let ?T = "length trks" and ?R = "length regs"
  let ?i = "(k * ?T + ti) * ?R + ri"
  have i: "?i = k * (?T * ?R) + (ti * ?R + ri)" by (simp add: algebra_simps)
  have inner: "ti * ?R + ri < ?T * ?R"
  proof -
    have "ti * ?R + ri < ti * ?R + ?R" using assms(3) by simp
    also have "\<dots> = Suc ti * ?R" by simp
    also have "\<dots> \<le> ?T * ?R" using assms(2) by (intro mult_le_mono1) simp
    finally show ?thesis .
  qed
  have d1: "?i div (?T * ?R) = k" unfolding i by (rule div_mod_block(1) [OF inner])
  have m1: "?i mod (?T * ?R) = ti * ?R + ri" unfolding i by (rule div_mod_block(2) [OF inner])
  have d2: "(ti * ?R + ri) div ?R = ti" by (rule div_mod_block(1) [OF assms(3)])
  have m2: "?i mod ?R = ri" by (rule div_mod_block(2) [OF assms(3)])
  from triples_nth [OF triples_index_bound [OF assms]] show ?thesis
    by (simp only: d1 m1 d2 m2)
qed

subsection \<open>The records of a run that returns\<close>

lemma generate_records:
  assumes "generate_streaming_data cfg trks n s regs g = Inr (recs, g')"
    and "strptime s = Inr start"
  shows "recs = records_of cfg (triples start (range n) trks regs) g"
    and "g' = advance (draws_used cfg (triples start (range n) trks regs) g) g"
    and "length recs = nat n * (length trks * length regs)"
    and "recs \<noteq> [] \<Longrightarrow> PLAYLIST_ADDS_DIVISOR cfg \<noteq> 0"
proof -
  from assms show r: "recs = records_of cfg (triples start (range n) trks regs) g"
    by (auto simp: generate_cases range_nonpos triples_def split: if_splits)
  from assms show "g' = advance (draws_used cfg (triples start (range n) trks regs) g) g"
    by (auto simp: generate_cases range_nonpos triples_def advance_0 split: if_splits)
  show "length recs = nat n * (length trks * length regs)"
    by (simp add: r length_records_of length_triples range_def)
  assume "recs \<noteq> []"
  with r have "triples start (range n) trks regs \<noteq> []" by auto
  then have "trks \<noteq> [] \<and> regs \<noteq> []" using triples_idle [of trks regs start "range n"] by blast
  with assms \<open>recs \<noteq> []\<close> show "PLAYLIST_ADDS_DIVISOR cfg \<noteq> 0"
    by (auto simp: generate_cases split: if_splits)
qed

lemma generate_nth:
  assumes "generate_streaming_data cfg trks n s regs g = Inr (recs, g')"
    and "strptime s = Inr start"
    and "i < length recs"
    and "triples start (range n) trks regs ! i = (d, trk, reg)"
  shows "recs ! i = triple_record cfg d trk reg
           (advance (draws_used cfg (take i (triples start (range n) trks regs)) g) g)"
proof -
  note r = generate_records(1) [OF assms(1,2)]
  from assms(3) have "i < length (triples start (range n) trks regs)"
    by (simp add: r length_records_of)
  from records_of_nth [OF this, of cfg g] assms(4) show ?thesis by (simp add: r)
qed

lemma generate_returns:
  assumes "strptime s = Inr start" "PLAYLIST_ADDS_DIVISOR cfg \<noteq> 0" "start + n - 1 \<le> MAXORDINAL"
  shows "\<exists>recs g'. generate_streaming_data cfg trks n s regs g = Inr (recs, g')"
  using assms by (simp add: generate_cases)

lemma draws_used_take_Suc:
  assumes "i < length ts" "ts ! i = (d, trk, reg)"
  shows "draws_used cfg (take (Suc i) ts) g =
           draws_used cfg (take i ts) g
             + triple_draws cfg d (advance (draws_used cfg (take i ts) g) g)"
  using assms by (simp add: take_Suc_conv_app_nth draws_used_append)

lemma triples_track:
  "(d, trk, reg) \<in> set (triples start offs trks regs) \<Longrightarrow> trk \<in> set trks"
  by (auto simp: triples_def)

subsection \<open>Signs and truncation\<close>

lemma unit_draws_advance: "unit_draws g \<Longrightarrow> unit_draws (advance k g)"
  by (simp add: unit_draws_def advance_def)

lemma unit_drawsD: "unit_draws g \<Longrightarrow> 0 \<le> g n \<and> g n \<le> 1"
  by (auto simp: unit_draws_def less_imp_le)

lemma uniform_nonneg:
  fixes a b u :: real
  assumes "0 \<le> a" "0 \<le> b" "0 \<le> u" "u \<le> 1"
  shows "0 \<le> a + (b - a) * u"
proof -
  have "a + (b - a) * u = a * (1 - u) + b * u" by (simp add: algebra_simps)
  also have "0 \<le> \<dots>" using assms by (intro add_nonneg_nonneg mult_nonneg_nonneg) simp_all
  finally show ?thesis .
qed

lemma py_int_floor: "0 \<le> x \<Longrightarrow> py_int x = \<lfloor>x\<rfloor>"
  by (simp add: py_int_def)

lemma py_int_nonneg: "0 \<le> x \<Longrightarrow> 0 \<le> py_int x"
  by (simp add: py_int_def)

lemma py_int_0: "py_int 0 = 0"
  by (simp add: py_int_def)

lemma layered_streams_nonneg:
  assumes "unit_draws h" "0 \<le> pop"
    and "0 \<le> BASE_STREAM_MULTIPLIER_MIN cfg" "0 \<le> BASE_STREAM_MULTIPLIER_MAX cfg"
    and "0 \<le> WEEKEND_BOOST_MIN cfg" "0 \<le> WEEKEND_BOOST_MAX cfg"
    and "0 \<le> VIRAL_SPIKE_MULTIPLIER_MIN cfg" "0 \<le> VIRAL_SPIKE_MULTIPLIER_MAX cfg"
    and "0 \<le> SUMMER_BOOST cfg"
  shows "0 \<le> layered_streams cfg pop d h"
proof -
  note u = unit_drawsD [OF assms(1)]
  have b: "0 \<le> BASE_STREAM_MULTIPLIER_MIN cfg
            + (BASE_STREAM_MULTIPLIER_MAX cfg - BASE_STREAM_MULTIPLIER_MIN cfg) * h 0"
    using assms u by (intro uniform_nonneg) simp_all
  have w: "0 \<le> WEEKEND_BOOST_MIN cfg + (WEEKEND_BOOST_MAX cfg - WEEKEND_BOOST_MIN cfg) * h 1"
    using assms u by (intro uniform_nonneg) simp_all
  have v: "0 \<le> VIRAL_SPIKE_MULTIPLIER_MIN cfg
            + (VIRAL_SPIKE_MULTIPLIER_MAX cfg - VIRAL_SPIKE_MULTIPLIER_MIN cfg) * h (viral_pos d + 2)"
    using assms u by (intro uniform_nonneg) simp_all
  show ?thesis
    unfolding layered_streams_def
    using assms(2,9) b w v
    by (intro py_int_nonneg mult_nonneg_nonneg) simp_all
qed

lemma derived_adds_nonneg:
  assumes "0 \<le> strms" "0 < PLAYLIST_ADDS_DIVISOR cfg" "0 \<le> u" "u \<le> 1"
  shows "0 \<le> derived_adds cfg strms u" "derived_adds cfg strms u
     = \<lfloor>real_of_int strms / PLAYLIST_ADDS_DIVISOR cfg * (8 / 10 + (12 / 10 - 8 / 10) * u)\<rfloor>"
proof -
  have "0 \<le> real_of_int strms / PLAYLIST_ADDS_DIVISOR cfg * (8 / 10 + (12 / 10 - 8 / 10) * u)"
    using assms by (intro mult_nonneg_nonneg divide_nonneg_nonneg uniform_nonneg) simp_all
  then show "0 \<le> derived_adds cfg strms u" "derived_adds cfg strms u
     = \<lfloor>real_of_int strms / PLAYLIST_ADDS_DIVISOR cfg * (8 / 10 + (12 / 10 - 8 / 10) * u)\<rfloor>"
    unfolding derived_adds_def by (simp_all add: py_int_nonneg py_int_floor)
qed

lemma layered_streams_zero: "layered_streams cfg 0 d h = 0"
  by (simp add: layered_streams_def py_int_0)

lemma derived_adds_zero: "derived_adds cfg 0 u = 0"
  by (simp add: derived_adds_def py_int_0)

subsection \<open>The error message of the loader\<close>

lemma sublist_embed:
  assumes "sublist x ys"
  shows "sublist x (ps @ ys @ ss)"
proof -
  from assms obtain a b where "ys = a @ x @ b" by (auto simp: sublist_def)
  then have "ps @ ys @ ss = (ps @ a) @ x @ (b @ ss)" by simp
  then show ?thesis unfolding sublist_def by blast
qed

lemma sublist_join: "x \<in> set xs \<Longrightarrow> sublist x (join sep xs)"
proof (induction sep xs rule: join.induct)
  case (1 sep)
  then show ?case by simp
next
  case (2 sep y)
  then show ?case by simp
next
  case (3 sep y z zs)
  show ?case
  proof (cases "x = y")
    case True
    then show ?thesis by simp
  next
    case False
    with "3.prems" have "x \<in> set (z # zs)" by simp
    from sublist_embed [OF "3.IH" [OF this], of "y @ sep" "[]"] show ?thesis by simp
  qed
qed

lemma repr_list_names: "c \<in> set xs \<Longrightarrow> sublist (repr_str c) (repr_list xs)"
proof -
  assume "c \<in> set xs"
  then have "repr_str c \<in> set (map repr_str xs)" by simp
  then have "sublist (repr_str c) (join '', '' (map repr_str xs))" by (rule sublist_join)
  then show ?thesis unfolding repr_list_def by (rule sublist_embed)
qed

subsection \<open>Evaluated examples\<close>

lemma strptime_examples:
  "strptime ''2024-01-05'' = Inr 738890"
  "strptime ''2024-01-07'' = Inr 738892"
  by code_simp+

lemma not_summer_examples:
  "is_summer_month 738890 = False"
  "is_summer_month 738892 = False"
  by (simp_all add: is_summer_month_def month_of_def ord2ymd_def Let_def
      DAYS_BEFORE_MONTH_def DAYS_IN_MONTH_def)

lemma strptime_june: "strptime ''2024-06-08'' = Inr 739045"
  by code_simp

lemma strptime_more:
  "strptime ''2024-13-01'' = Inl StrptimeValueError"
  "strptime ''9999-12-31'' = Inr 3652059"
  by code_simp+

lemma june_days:
  "is_weekend 739045 = True" "is_weekend 739046 = False"
  "is_summer_month 739045 = True" "is_summer_month 739046 = True"
  by (simp_all add: is_weekend_def weekday_def is_summer_month_def month_of_def ord2ymd_def Let_def
      DAYS_BEFORE_MONTH_def DAYS_IN_MONTH_def)

lemma ord2ymd_examples:
  "ord2ymd 739045 = (2024, 6, 8)" "ord2ymd 739046 = (2024, 6, 9)"
  by (simp_all add: ord2ymd_def Let_def DAYS_BEFORE_MONTH_def DAYS_IN_MONTH_def)

lemma range_2: "range 2 = [0, 1]"
  by (simp add: range_def upt_rec)

lemma example_triples:
  "triples 739045 (range 2) [track_a, track_zero] [''US'', ''GB''] =
     [(739045, track_a, ''US''), (739045, track_a, ''GB''),
      (739045, track_zero, ''US''), (739045, track_zero, ''GB''),
      (739046, track_a, ''US''), (739046, track_a, ''GB''),
      (739046, track_zero, ''US''), (739046, track_zero, ''GB'')]"
  by (simp add: triples_def range_2)

lemma cyc: "advance k cycle_rng n = cycle_rng (n + k)"
  by (simp add: advance_def)

lemma cycle_vals:
  "cycle_rng 0 = 1/2" "cycle_rng 1 = 1/4" "cycle_rng 2 = 0" "cycle_rng 3 = 3/4" "cycle_rng 4 = 1/2"
  "cycle_rng 5 = 1/4" "cycle_rng 6 = 0" "cycle_rng 7 = 3/4" "cycle_rng 8 = 1/2"
  "cycle_rng 9 = 1/4" "cycle_rng 10 = 0" "cycle_rng 11 = 3/4" "cycle_rng 12 = 1/2"
  "cycle_rng 13 = 1/4" "cycle_rng 14 = 0" "cycle_rng 15 = 3/4" "cycle_rng 16 = 1/2"
  "cycle_rng 17 = 1/4" "cycle_rng 18 = 0" "cycle_rng 19 = 3/4" "cycle_rng 20 = 1/2"
  "cycle_rng 21 = 1/4" "cycle_rng 22 = 0" "cycle_rng 23 = 3/4" "cycle_rng 24 = 1/2"
  "cycle_rng 25 = 1/4" "cycle_rng 26 = 0" "cycle_rng 27 = 3/4" "cycle_rng 28 = 1/2"
  "cycle_rng 29 = 1/4" "cycle_rng 30 = 0" "cycle_rng 31 = 3/4" "cycle_rng 32 = 1/2"
  by (simp_all add: cycle_rng_def)

lemma cycle_vals_Suc:
  "cycle_rng (Suc 0) = 1/4" "cycle_rng (Suc (Suc 0)) = 0" "cycle_rng (Suc (Suc (Suc 0))) = 3/4"
  "cycle_rng (Suc (Suc (Suc (Suc 0)))) = 1/2"
  using cycle_vals(2-5) by (simp_all add: eval_nat_numeral)

lemma unit_draws_cycle: "unit_draws cycle_rng"
proof -
  have "0 \<le> cycle_rng n \<and> cycle_rng n < 1" for n
  proof -
    have "n mod 4 < 4" by simp
    then consider "n mod 4 = 0" | "n mod 4 = 1" | "n mod 4 = 2" | "n mod 4 = 3" by linarith
    then show ?thesis by cases (simp_all add: cycle_rng_def)
  qed
  then show ?thesis by (simp add: unit_draws_def)
qed

lemmas eval_defs = triple_record_def layered_streams_def derived_adds_def stream_draws_def
      triple_draws_def viral_fires_def viral_pos_def june_days cycle_vals cycle_vals_Suc cyc
      cfg_example_def py_int_def

lemma example_triple_records:
  "triple_record cfg_example 739045 track_a ''US'' cycle_rng =
     \<lparr>track_id = ''t1'', track_name = ''Song A'', artists = ''Artist A'', popularity = 50,
      date = 739045, streams = 33206, region = ''US'', playlist_adds = 3320\<rparr>"
  "triple_record cfg_example 739045 track_a ''GB'' (advance 5 cycle_rng) =
     \<lparr>track_id = ''t1'', track_name = ''Song A'', artists = ''Artist A'', popularity = 50,
       date = 739045, streams = 7562, region = ''GB'', playlist_adds = 756\<rparr>"
  "triple_record cfg_example 739045 track_zero ''US'' (advance 9 cycle_rng) =
      \<lparr>track_id = ''t2'', track_name = ''Song B'', artists = ''Artist B'', popularity = 0,
       date = 739045, streams = 0, region = ''US'', playlist_adds = 0\<rparr>"
  "triple_record cfg_example 739045 track_zero ''GB'' (advance 13 cycle_rng) =
      \<lparr>track_id = ''t2'', track_name = ''Song B'', artists = ''Artist B'', popularity = 0,
       date = 739045, streams = 0, region = ''GB'', playlist_adds = 0\<rparr>"
  "triple_record cfg_example 739046 track_a ''US'' (advance 17 cycle_rng) =
      \<lparr>track_id = ''t1'', track_name = ''Song A'', artists = ''Artist A'', popularity = 50,
       date = 739046, streams = 24062, region = ''US'', playlist_adds = 2406\<rparr>"
  "triple_record cfg_example 739046 track_a ''GB'' (advance 21 cycle_rng) =
      \<lparr>track_id = ''t1'', track_name = ''Song A'', artists = ''Artist A'', popularity = 50,
       date = 739046, streams = 24062, region = ''GB'', playlist_adds = 2406\<rparr>"
  "triple_record cfg_example 739046 track_zero ''US'' (advance 25 cycle_rng) =
      \<lparr>track_id = ''t2'', track_name = ''Song B'', artists = ''Artist B'', popularity = 0,
       date = 739046, streams = 0, region = ''US'', playlist_adds = 0\<rparr>"
  "triple_record cfg_example 739046 track_zero ''GB'' (advance 29 cycle_rng) =
      \<lparr>track_id = ''t2'', track_name = ''Song B'', artists = ''Artist B'', popularity = 0,
       date = 739046, streams = 0, region = ''GB'', playlist_adds = 0\<rparr>"
  by (simp_all add: eval_defs track_a_def track_zero_def)

lemma example_triple_draws:
  "triple_draws cfg_example 739045 cycle_rng = 5"
  "triple_draws cfg_example 739045 (advance 5 cycle_rng) = 4"
  "triple_draws cfg_example 739045 (advance 9 cycle_rng) = 4"
  "triple_draws cfg_example 739045 (advance 13 cycle_rng) = 4"
  "triple_draws cfg_example 739046 (advance 17 cycle_rng) = 4"
  "triple_draws cfg_example 739046 (advance 21 cycle_rng) = 4"
  "triple_draws cfg_example 739046 (advance 25 cycle_rng) = 4"
  "triple_draws cfg_example 739046 (advance 29 cycle_rng) = 4"
  by (simp_all add: eval_defs)

lemma example_records:
  "records_of cfg_example (triples 739045 (range 2) [track_a, track_zero] [''US'', ''GB'']) cycle_rng
     = example_output"
  unfolding example_triples example_output_def
  by (simp add: example_triple_records example_triple_draws advance_advance)

lemma example_draws:
  "draws_used cfg_example (triples 739045 (range 2) [track_a, track_zero] [''US'', ''GB'']) cycle_rng = 33"
  unfolding example_triples
  by (simp add: example_triple_draws advance_advance)

lemma example_run:
  "generate_streaming_data cfg_example [track_a, track_zero] 2 ''2024-06-08'' [''US'', ''GB''] cycle_rng
     = Inr (example_output, advance 33 cycle_rng)"
proof -
  have d: "PLAYLIST_ADDS_DIVISOR cfg_example \<noteq> 0" by (simp add: cfg_example_def)
  show ?thesis
    unfolding generate_cases strptime_june
    by (simp add: d MAXORDINAL_def example_records example_draws)
qed

lemma example_prefix_draws:
  "draws_used cfg_example
     (take 4 (triples 739045 (range 2) [track_a, track_zero] [''US'', ''GB''])) cycle_rng = 17"
  "draws_used cfg_example
     (take 5 (triples 739045 (range 2) [track_a, track_zero] [''US'', ''GB''])) cycle_rng = 21"
  unfolding example_triples
  by (simp_all add: example_triple_draws advance_advance)

lemma example_nth:
  "triples 739045 (range 2) [track_a, track_zero] [''US'', ''GB''] ! 0 = (739045, track_a, ''US'')"
  "triples 739045 (range 2) [track_a, track_zero] [''US'', ''GB''] ! 4 = (739046, track_a, ''US'')"
  unfolding example_triples by simp_all

lemma single_triple:
  "triples 739045 (range 1) [track_a] [''US''] = [(739045, track_a, ''US'')]"
  by (simp add: triples_def range_def)

lemma variant_records:
  "triple_record cfg_negative_divisor 739045 track_a ''US'' cycle_rng =
     \<lparr>track_id = ''t1'', track_name = ''Song A'', artists = ''Artist A'', popularity = 50,
      date = 739045, streams = 33206, region = ''US'', playlist_adds = - 4743\<rparr>"
  "triple_record cfg_reversed 739045 track_a ''US'' cycle_rng =
     \<lparr>track_id = ''t1'', track_name = ''Song A'', artists = ''Artist A'', popularity = 50,
      date = 739045, streams = 33206, region = ''US'', playlist_adds = 3320\<rparr>"
  by (simp_all add: eval_defs track_a_def cfg_negative_divisor_def cfg_reversed_def)

lemma variant_draws:
  "triple_draws cfg_negative_divisor 739045 cycle_rng = 5"
  "triple_draws cfg_reversed 739045 cycle_rng = 5"
  by (simp_all add: eval_defs cfg_negative_divisor_def cfg_reversed_def)

lemma variant_divisors:
  "PLAYLIST_ADDS_DIVISOR cfg_negative_divisor = - 7"
  "PLAYLIST_ADDS_DIVISOR cfg_reversed = 10"
  "PLAYLIST_ADDS_DIVISOR cfg_zero_divisor = 0"
  "PLAYLIST_ADDS_DIVISOR cfg_example = 10"
  by (simp_all add: cfg_negative_divisor_def cfg_reversed_def cfg_zero_divisor_def cfg_example_def)

section \<open>The stream count\<close>

text \<open>
  C10: \<^verbatim>\<open>calculate_streams\<close> ignores its popularity argument. With the same configuration,
  date, base streams and generator state, any two popularity values give the same count
  and leave the generator in the same state: popularity reaches the count only through
  the base streams that the caller computes.
\<close>

theorem calculate_streams_ignores_popularity:
  "calculate_streams cfg popularity1 d base_streams g
     = calculate_streams cfg popularity2 d base_streams g"
  by (simp add: calculate_streams_def)

text \<open>
  C5: the weekend factor, one plus a uniform draw between \<open>WEEKEND_BOOST_MIN\<close> and
  \<open>WEEKEND_BOOST_MAX\<close>, multiplies the streams exactly when the weekday index, Monday
  being 0, is 4 or 5 (Friday or Saturday). On those days the boost takes the first draw
  and the viral test the second; on every other day no boost is applied, no draw is taken
  for it and the viral test takes the first draw.
\<close>

theorem weekend_boost_friday_saturday:
  "calculate_streams cfg pop d base_streams g =
     (if weekday d = 4 \<or> weekday d = 5
      then (py_int (base_streams
              * (1 + (WEEKEND_BOOST_MIN cfg + (WEEKEND_BOOST_MAX cfg - WEEKEND_BOOST_MIN cfg) * g 0))
              * (if g 1 < VIRAL_SPIKE_PROBABILITY cfg
                 then VIRAL_SPIKE_MULTIPLIER_MIN cfg
                   + (VIRAL_SPIKE_MULTIPLIER_MAX cfg - VIRAL_SPIKE_MULTIPLIER_MIN cfg) * g 2
                 else 1)
              * (if is_summer_month d then 1 + SUMMER_BOOST cfg else 1)),
            advance (if g 1 < VIRAL_SPIKE_PROBABILITY cfg then 3 else 2) g)
      else (py_int (base_streams
              * (if g 0 < VIRAL_SPIKE_PROBABILITY cfg
                 then VIRAL_SPIKE_MULTIPLIER_MIN cfg
                   + (VIRAL_SPIKE_MULTIPLIER_MAX cfg - VIRAL_SPIKE_MULTIPLIER_MIN cfg) * g 1
                 else 1)
              * (if is_summer_month d then 1 + SUMMER_BOOST cfg else 1)),
            advance (if g 0 < VIRAL_SPIKE_PROBABILITY cfg then 2 else 1) g))"
  by (simp add: calculate_streams_closed viral_pos_def is_weekend_def eval_nat_numeral)

text \<open>
  On Friday 2024-01-05 the base of 7500 streams is boosted by 1.2 and two draws are taken;
  on Sunday 2024-01-07 it is left alone and one draw is taken.
\<close>

theorem weekend_boost_friday_saturday_witness:
  "strptime ''2024-01-05'' = Inr 738890 \<and> weekday 738890 = 4
   \<and> calculate_streams cfg_example 50 738890 7500 half_rng = (9000, advance 2 half_rng)
   \<and> strptime ''2024-01-07'' = Inr 738892 \<and> weekday 738892 = 6
   \<and> calculate_streams cfg_example 50 738892 7500 half_rng = (7500, advance 1 half_rng)"
proof -
  have w: "weekday 738890 = 4" "weekday 738892 = 6" by (simp_all add: weekday_def)
  show ?thesis
    using weekend_boost_friday_saturday [of cfg_example 50 738890 7500 half_rng]
      weekend_boost_friday_saturday [of cfg_example 50 738892 7500 half_rng]
    by (simp add: strptime_examples w not_summer_examples cfg_example_def half_rng_def py_int_def)
qed

text \<open>
  C1: in a run that returns, the stream count of the record at position \<open>i\<close> is the
  truncation toward zero of one product, built in the order of the source: the popularity
  of the triple's track times a uniform draw between the base multipliers; then the
  weekend factor, on a weekend day; then the viral multiplier, when the viral test fires;
  then one plus the summer boost, in June, July and August. Here \<open>h\<close> is the generator
  as the triple finds it, so \<open>h 0\<close> is a draw of the triple's own; the weekend draw, when
  there is one, comes next, then the viral test, then the viral multiplier. The
  truncation is the last step.
\<close>

theorem streams_layered_product:
  assumes "generate_streaming_data cfg trks n s regs g = Inr (recs, g')"
    and "strptime s = Inr start"
    and "i < length recs"
    and "triples start (range n) trks regs ! i = (d, trk, reg)"
    and "h = advance (draws_used cfg (take i (triples start (range n) trks regs)) g) g"
  shows "streams (recs ! i) =
     py_int (real_of_int (popularity trk)
       * (BASE_STREAM_MULTIPLIER_MIN cfg
            + (BASE_STREAM_MULTIPLIER_MAX cfg - BASE_STREAM_MULTIPLIER_MIN cfg) * h 0)
       * (if is_weekend d
          then 1 + (WEEKEND_BOOST_MIN cfg + (WEEKEND_BOOST_MAX cfg - WEEKEND_BOOST_MIN cfg) * h 1)
          else 1)
       * (if h (if is_weekend d then 2 else 1) < VIRAL_SPIKE_PROBABILITY cfg
          then VIRAL_SPIKE_MULTIPLIER_MIN cfg
                 + (VIRAL_SPIKE_MULTIPLIER_MAX cfg - VIRAL_SPIKE_MULTIPLIER_MIN cfg)
                     * h (if is_weekend d then 3 else 2)
          else 1)
       * (if is_summer_month d then 1 + SUMMER_BOOST cfg else 1))"
  unfolding generate_nth [OF assms(1-4)] assms(5)
  by (simp add: triple_record_def layered_streams_def viral_fires_def viral_pos_def eval_nat_numeral)

text \<open>
  The fifth record of the example run, for Sunday 2024-06-09, starts at draw 17: no
  weekend factor, the viral test fires on draw 18 and the summer boost applies.
\<close>

theorem streams_layered_product_witness:
  "strptime ''2024-06-08'' = Inr 739045
   \<and> generate_streaming_data cfg_example [track_a, track_zero] 2 ''2024-06-08'' [''US'', ''GB'']
        cycle_rng = Inr (example_output, advance 33 cycle_rng)
   \<and> triples 739045 (range 2) [track_a, track_zero] [''US'', ''GB''] ! 4 = (739046, track_a, ''US'')
   \<and> draws_used cfg_example
        (take 4 (triples 739045 (range 2) [track_a, track_zero] [''US'', ''GB''])) cycle_rng = 17
   \<and> is_weekend 739046 = False \<and> is_summer_month 739046 = True
   \<and> streams (example_output ! 4) = 24062
   \<and> py_int (50 * (100 + (200 - 100) * cycle_rng 17) * 1 * (2 + (4 - 2) * cycle_rng 19)
               * (1 + 1 / 10)) = 24062"
proof -
  have len: "4 < length example_output" by (simp add: example_output_def)
  have h: "advance 17 cycle_rng = advance (draws_used cfg_example
        (take 4 (triples 739045 (range 2) [track_a, track_zero] [''US'', ''GB''])) cycle_rng) cycle_rng"
    by (simp only: example_prefix_draws)
  from streams_layered_product [OF example_run strptime_june len example_nth(2) h]
  have s: "streams (example_output ! 4) = 24062"
    by (simp add: june_days cyc cycle_vals cfg_example_def track_a_def py_int_def)
  have p: "py_int (50 * (100 + (200 - 100) * cycle_rng 17) * 1 * (2 + (4 - 2) * cycle_rng 19)
               * (1 + 1 / 10)) = 24062"
    by (simp add: cycle_vals py_int_def)
  from strptime_june example_run example_nth(2) example_prefix_draws(1) june_days(2,4) s p
  show ?thesis by (intro conjI)
qed

section \<open>The playlist adds\<close>

text \<open>
  With a negative divisor the count of playlist adds is not the floor: the quotient is
  about -4743.7, which \<^verbatim>\<open>int\<close> truncates to -4743, and its floor is -4744.
\<close>

theorem playlist_adds_floor_counterexample:
  "generate_streaming_data cfg_negative_divisor [track_a] 1 ''2024-06-08'' [''US''] cycle_rng =
     Inr ([\<lparr>track_id = ''t1'', track_name = ''Song A'', artists = ''Artist A'', popularity = 50,
            date = 739045, streams = 33206, region = ''US'', playlist_adds = - 4743\<rparr>],
          advance 5 cycle_rng)
   \<and> \<lfloor>real_of_int 33206 / PLAYLIST_ADDS_DIVISOR cfg_negative_divisor
        * (8 / 10 + (12 / 10 - 8 / 10) * cycle_rng 4)\<rfloor> = - 4744"
proof -
  have "generate_streaming_data cfg_negative_divisor [track_a] 1 ''2024-06-08'' [''US''] cycle_rng =
     Inr ([\<lparr>track_id = ''t1'', track_name = ''Song A'', artists = ''Artist A'', popularity = 50,
            date = 739045, streams = 33206, region = ''US'', playlist_adds = - 4743\<rparr>],
          advance 5 cycle_rng)"
    unfolding generate_cases strptime_june
    by (simp add: single_triple variant_divisors MAXORDINAL_def variant_records variant_draws)
  moreover have "\<lfloor>real_of_int 33206 / PLAYLIST_ADDS_DIVISOR cfg_negative_divisor
        * (8 / 10 + (12 / 10 - 8 / 10) * cycle_rng 4)\<rfloor> = - 4744"
    by (simp add: variant_divisors cycle_vals)
  ultimately show ?thesis by (intro conjI)
qed

text \<open>
  C2, with truncation in place of the floor: in a run that returns, the divisor is not zero and the playlist adds of
  the record at position \<open>i\<close> are the truncation toward zero of the record's own stream
  count, divided by the divisor, times \<open>0.8 + 0.4 * u\<close>, where \<open>u\<close> is the draw that
  follows the draws of the stream count. That draw is taken for every triple, whatever
  its stream count: the next triple starts one draw later. The truncation is the floor
  when the stream count is not negative, the divisor is positive and the draws are unit
  draws.
\<close>

theorem playlist_adds_truncated:
  assumes "generate_streaming_data cfg trks n s regs g = Inr (recs, g')"
    and "strptime s = Inr start"
    and "i < length recs"
    and "triples start (range n) trks regs ! i = (d, trk, reg)"
    and "h = advance (draws_used cfg (take i (triples start (range n) trks regs)) g) g"
  shows "PLAYLIST_ADDS_DIVISOR cfg \<noteq> 0
    \<and> playlist_adds (recs ! i) =
        py_int (real_of_int (streams (recs ! i)) / PLAYLIST_ADDS_DIVISOR cfg
                  * (8 / 10 + (12 / 10 - 8 / 10) * h (stream_draws cfg d h)))
    \<and> draws_used cfg (take (Suc i) (triples start (range n) trks regs)) g =
        draws_used cfg (take i (triples start (range n) trks regs)) g + stream_draws cfg d h + 1
    \<and> (0 \<le> streams (recs ! i) \<and> 0 < PLAYLIST_ADDS_DIVISOR cfg \<and> unit_draws g \<longrightarrow>
        playlist_adds (recs ! i) =
          \<lfloor>real_of_int (streams (recs ! i)) / PLAYLIST_ADDS_DIVISOR cfg
              * (8 / 10 + (12 / 10 - 8 / 10) * h (stream_draws cfg d h))\<rfloor>)"
proof (intro conjI impI)
  from assms(3) have "recs \<noteq> []" by auto
  from generate_records(4) [OF assms(1,2) this] show "PLAYLIST_ADDS_DIVISOR cfg \<noteq> 0" .
  note nth = generate_nth [OF assms(1-4), folded assms(5)]
  show adds: "playlist_adds (recs ! i) =
        py_int (real_of_int (streams (recs ! i)) / PLAYLIST_ADDS_DIVISOR cfg
                  * (8 / 10 + (12 / 10 - 8 / 10) * h (stream_draws cfg d h)))"
    by (simp add: nth triple_record_def derived_adds_def)
  from assms(3) have len: "i < length (triples start (range n) trks regs)"
    by (simp add: generate_records(1) [OF assms(1,2)] length_records_of)
  from draws_used_take_Suc [OF len assms(4), of cfg g]
  show "draws_used cfg (take (Suc i) (triples start (range n) trks regs)) g =
        draws_used cfg (take i (triples start (range n) trks regs)) g + stream_draws cfg d h + 1"
    by (simp add: assms(5) triple_draws_def)
  assume a: "0 \<le> streams (recs ! i) \<and> 0 < PLAYLIST_ADDS_DIVISOR cfg \<and> unit_draws g"
  then have "unit_draws h" by (simp add: assms(5) unit_draws_advance)
  note u = unit_drawsD [OF this, of "stream_draws cfg d h"]
  from derived_adds_nonneg(2) [of "streams (recs ! i)" cfg "h (stream_draws cfg d h)"] a u
  show "playlist_adds (recs ! i) =
          \<lfloor>real_of_int (streams (recs ! i)) / PLAYLIST_ADDS_DIVISOR cfg
              * (8 / 10 + (12 / 10 - 8 / 10) * h (stream_draws cfg d h))\<rfloor>"
    by (simp add: adds derived_adds_def)
qed

text \<open>The fifth record of the example run: 24062 streams, variance draw 20, 2406 adds.\<close>

theorem playlist_adds_truncated_witness:
  "strptime ''2024-06-08'' = Inr 739045
   \<and> generate_streaming_data cfg_example [track_a, track_zero] 2 ''2024-06-08'' [''US'', ''GB'']
        cycle_rng = Inr (example_output, advance 33 cycle_rng)
   \<and> triples 739045 (range 2) [track_a, track_zero] [''US'', ''GB''] ! 4 = (739046, track_a, ''US'')
   \<and> draws_used cfg_example
        (take 4 (triples 739045 (range 2) [track_a, track_zero] [''US'', ''GB''])) cycle_rng = 17
   \<and> draws_used cfg_example
        (take 5 (triples 739045 (range 2) [track_a, track_zero] [''US'', ''GB''])) cycle_rng = 21
   \<and> unit_draws cycle_rng
   \<and> streams (example_output ! 4) = 24062
   \<and> playlist_adds (example_output ! 4) = 2406
   \<and> py_int (24062 / 10 * (8 / 10 + (12 / 10 - 8 / 10) * cycle_rng 20)) = 2406
   \<and> \<lfloor>24062 / 10 * (8 / 10 + (12 / 10 - 8 / 10) * cycle_rng 20) :: real\<rfloor> = 2406"
proof -
  have len: "4 < length example_output" by (simp add: example_output_def)
  have h: "advance 17 cycle_rng = advance (draws_used cfg_example
        (take 4 (triples 739045 (range 2) [track_a, track_zero] [''US'', ''GB''])) cycle_rng) cycle_rng"
    by (simp only: example_prefix_draws)
  have s: "streams (example_output ! 4) = 24062" by (simp add: example_output_def)
  have sd: "stream_draws cfg_example 739046 (advance 17 cycle_rng) = 3"
    using example_triple_draws(5) by (simp add: triple_draws_def)
  from playlist_adds_truncated [OF example_run strptime_june len example_nth(2) h]
  have a: "playlist_adds (example_output ! 4) = 2406"
    by (simp add: s sd cyc cycle_vals variant_divisors py_int_def)
  have p: "py_int (24062 / 10 * (8 / 10 + (12 / 10 - 8 / 10) * cycle_rng 20)) = 2406"
    "\<lfloor>24062 / 10 * (8 / 10 + (12 / 10 - 8 / 10) * cycle_rng 20) :: real\<rfloor> = 2406"
    by (simp_all add: cycle_vals py_int_def)
  from strptime_june example_run example_nth(2) example_prefix_draws unit_draws_cycle s a p
  show ?thesis by (intro conjI)
qed

section \<open>The shape of the output\<close>

text \<open>
  C3: a run that returns yields exactly horizon times tracks times regions records
  (\<^verbatim>\<open>range\<close> of a horizon below zero is empty, as that of zero), and a run returns
  whenever the start date parses, the divisor of the playlist adds is not zero and the
  last simulated day is no later than 9999-12-31.
\<close>

theorem record_count:
  "(generate_streaming_data cfg trks n s regs g = Inr (recs, g')
      \<longrightarrow> length recs = nat n * length trks * length regs)
   \<and> (strptime s = Inr start \<and> PLAYLIST_ADDS_DIVISOR cfg \<noteq> 0 \<and> start + n - 1 \<le> MAXORDINAL
      \<longrightarrow> (\<exists>recs g'. generate_streaming_data cfg trks n s regs g = Inr (recs, g')))"
proof (intro conjI impI)
  assume "generate_streaming_data cfg trks n s regs g = Inr (recs, g')"
  then show "length recs = nat n * length trks * length regs"
    by (auto simp: generate_cases length_records_of length_triples range_def
        split: sum.splits if_splits)
next
  assume "strptime s = Inr start \<and> PLAYLIST_ADDS_DIVISOR cfg \<noteq> 0 \<and> start + n - 1 \<le> MAXORDINAL"
  then show "\<exists>recs g'. generate_streaming_data cfg trks n s regs g = Inr (recs, g')"
    by (simp add: generate_cases)
qed

text \<open>Two days, two tracks and two regions give eight records.\<close>

theorem record_count_witness:
  "strptime ''2024-06-08'' = Inr 739045
   \<and> PLAYLIST_ADDS_DIVISOR cfg_example = 10
   \<and> generate_streaming_data cfg_example [track_a, track_zero] 2 ''2024-06-08'' [''US'', ''GB'']
        cycle_rng = Inr (example_output, advance 33 cycle_rng)
   \<and> length example_output = 8"
proof -
  have d: "PLAYLIST_ADDS_DIVISOR cfg_example = 10" by (simp add: cfg_example_def)
  from record_count [where cfg = cfg_example and trks = "[track_a, track_zero]" and n = 2
      and s = "''2024-06-08''" and regs = "[''US'', ''GB'']" and g = cycle_rng
      and recs = example_output and g' = "advance 33 cycle_rng" and start = 739045]
  have "length example_output = 8" by (simp add: example_run)
  with strptime_june d example_run show ?thesis by (intro conjI)
qed

text \<open>
  C4: the records come day by day, within a day track by track in the order of the
  catalog, within a track region by region in the order of the list: the record of day
  offset \<open>k\<close>, track number \<open>ti\<close> and region number \<open>ri\<close> stands at position
  \<open>(k * tracks + ti) * regions + ri\<close>, carries the date \<open>k\<close> days after the start date
  (the start date itself for \<open>k = 0\<close>), the four columns of that track and that region.
\<close>

theorem day_major_order:
  assumes "generate_streaming_data cfg trks n s regs g = Inr (recs, g')"
    and "strptime s = Inr start"
    and "k < nat n" and "ti < length trks" and "ri < length regs"
  shows "(k * length trks + ti) * length regs + ri < length recs
    \<and> date (recs ! ((k * length trks + ti) * length regs + ri)) = start + int k
    \<and> track_id (recs ! ((k * length trks + ti) * length regs + ri)) = track_id (trks ! ti)
    \<and> track_name (recs ! ((k * length trks + ti) * length regs + ri)) = track_name (trks ! ti)
    \<and> artists (recs ! ((k * length trks + ti) * length regs + ri)) = artists (trks ! ti)
    \<and> popularity (recs ! ((k * length trks + ti) * length regs + ri)) = popularity (trks ! ti)
    \<and> region (recs ! ((k * length trks + ti) * length regs + ri)) = regs ! ri"
proof -
  let ?i = "(k * length trks + ti) * length regs + ri"
  have k: "k < length (range n)" using assms(3) by (simp add: range_def)
  have rk: "range n ! k = k" using assms(3) by (simp add: range_def)
  note t = triples_nth_composed [OF k assms(4,5), of start]
  have len: "?i < length recs"
    using triples_index_bound [OF k assms(4,5)]
    by (simp add: generate_records(3) [OF assms(1,2)] range_def)
  from generate_nth [OF assms(1,2) len] t rk
  show ?thesis using len by (simp add: triple_record_def)
qed

text \<open>
  In the example run the first record is of 2024-06-08, the start date, and the seventh
  (day offset 1, second track, first region) of 2024-06-09.
\<close>

theorem day_major_order_witness:
  "strptime ''2024-06-08'' = Inr 739045
   \<and> generate_streaming_data cfg_example [track_a, track_zero] 2 ''2024-06-08'' [''US'', ''GB'']
        cycle_rng = Inr (example_output, advance 33 cycle_rng)
   \<and> date (example_output ! 0) = 739045 \<and> ord2ymd 739045 = (2024, 6, 8)
   \<and> track_id (example_output ! 0) = ''t1'' \<and> region (example_output ! 0) = ''US''
   \<and> date (example_output ! 6) = 739046 \<and> ord2ymd 739046 = (2024, 6, 9)
   \<and> track_id (example_output ! 6) = ''t2'' \<and> region (example_output ! 6) = ''US''"
proof -
  from day_major_order [OF example_run strptime_june, of 0 0 0]
  have a: "date (example_output ! 0) = 739045" "track_id (example_output ! 0) = ''t1''"
    "region (example_output ! 0) = ''US''"
    by (simp_all add: track_a_def)
  from day_major_order [OF example_run strptime_june, of 1 1 0]
  have b: "date (example_output ! 6) = 739046" "track_id (example_output ! 6) = ''t2''"
    "region (example_output ! 6) = ''US''"
    by (simp_all add: track_zero_def eval_nat_numeral)
  from strptime_june example_run a b ord2ymd_examples show ?thesis by (intro conjI)
qed

section \<open>Signs of the counts\<close>

text \<open>
  C6: when every popularity lies between 0 and 100, the endpoints of the three multiplier
  ranges, the viral probability and the summer boost are not negative, the divisor is
  positive and the generator hands out unit draws, then a run whose start date parses and
  whose days end by 9999-12-31 returns, and in every record the streams and the playlist
  adds are integers that are not negative.
\<close>

theorem counts_nonnegative:
  assumes "strptime s = Inr start" and "start + n - 1 \<le> MAXORDINAL"
    and "unit_draws g"
    and "\<forall>trk \<in> set trks. 0 \<le> popularity trk \<and> popularity trk \<le> 100"
    and "0 \<le> BASE_STREAM_MULTIPLIER_MIN cfg" "0 \<le> BASE_STREAM_MULTIPLIER_MAX cfg"
    and "0 \<le> WEEKEND_BOOST_MIN cfg" "0 \<le> WEEKEND_BOOST_MAX cfg"
    and "0 \<le> VIRAL_SPIKE_PROBABILITY cfg"
    and "0 \<le> VIRAL_SPIKE_MULTIPLIER_MIN cfg" "0 \<le> VIRAL_SPIKE_MULTIPLIER_MAX cfg"
    and "0 \<le> SUMMER_BOOST cfg"
    and "0 < PLAYLIST_ADDS_DIVISOR cfg"
  shows "\<exists>recs g'. generate_streaming_data cfg trks n s regs g = Inr (recs, g')
           \<and> (\<forall>r \<in> set recs. 0 \<le> streams r \<and> 0 \<le> playlist_adds r)"
proof -
  from assms(13) have "PLAYLIST_ADDS_DIVISOR cfg \<noteq> 0" by simp
  from generate_returns [OF assms(1) this assms(2)] obtain recs g' where
    run: "generate_streaming_data cfg trks n s regs g = Inr (recs, g')"
    by blast
  have "0 \<le> streams r \<and> 0 \<le> playlist_adds r" if "r \<in> set recs" for r
  proof -
    from that obtain i where i: "i < length recs" and r: "r = recs ! i"
      by (auto simp: in_set_conv_nth)
    obtain d trk reg where t: "triples start (range n) trks regs ! i = (d, trk, reg)"
      by (cases "triples start (range n) trks regs ! i") auto
    define h where "h = advance (draws_used cfg (take i (triples start (range n) trks regs)) g) g"
    from i have "i < length (triples start (range n) trks regs)"
      by (simp add: generate_records(1) [OF run assms(1)] length_records_of)
    then have "(d, trk, reg) \<in> set (triples start (range n) trks regs)"
      using t by (metis nth_mem)
    then have "trk \<in> set trks" by (rule triples_track)
    with assms(4) have pop: "0 \<le> popularity trk" by blast
    have uh: "unit_draws h" unfolding h_def by (rule unit_draws_advance [OF assms(3)])
    have s: "0 \<le> layered_streams cfg (popularity trk) d h"
      using uh pop assms(5-8,10-12) by (intro layered_streams_nonneg)
    note u = unit_drawsD [OF uh, of "stream_draws cfg d h"]
    have a: "0 \<le> derived_adds cfg (layered_streams cfg (popularity trk) d h)
                    (h (stream_draws cfg d h))"
      using s assms(13) u by (intro derived_adds_nonneg(1)) simp_all
    from generate_nth [OF run assms(1) i t, folded h_def] s a show ?thesis
      by (simp add: r triple_record_def)
  qed
  with run show ?thesis by blast
qed

text \<open>The example run meets the preconditions; its second record has 7562 streams and 756 adds.\<close>

theorem counts_nonnegative_witness:
  "strptime ''2024-06-08'' = Inr 739045 \<and> unit_draws cycle_rng
   \<and> popularity track_a = 50 \<and> popularity track_zero = 0
   \<and> PLAYLIST_ADDS_DIVISOR cfg_example = 10
   \<and> generate_streaming_data cfg_example [track_a, track_zero] 2 ''2024-06-08'' [''US'', ''GB'']
        cycle_rng = Inr (example_output, advance 33 cycle_rng)
   \<and> 0 \<le> streams (example_output ! 1) \<and> 0 \<le> playlist_adds (example_output ! 1)
   \<and> streams (example_output ! 1) = 7562 \<and> playlist_adds (example_output ! 1) = 756"
proof -
  have pops: "popularity track_a = 50" "popularity track_zero = 0"
    by (simp_all add: track_a_def track_zero_def)
  have "\<exists>recs g'. generate_streaming_data cfg_example [track_a, track_zero] 2 ''2024-06-08''
            [''US'', ''GB''] cycle_rng = Inr (recs, g')
           \<and> (\<forall>r \<in> set recs. 0 \<le> streams r \<and> 0 \<le> playlist_adds r)"
    by (rule counts_nonnegative [OF strptime_june _ unit_draws_cycle])
       (simp_all add: pops MAXORDINAL_def cfg_example_def)
  then obtain recs g' where
    r: "generate_streaming_data cfg_example [track_a, track_zero] 2 ''2024-06-08''
            [''US'', ''GB''] cycle_rng = Inr (recs, g')"
    and a: "\<forall>r \<in> set recs. 0 \<le> streams r \<and> 0 \<le> playlist_adds r"
    by blast
  from r have "recs = example_output" by (simp add: example_run)
  with a have all: "\<forall>r \<in> set example_output. 0 \<le> streams r \<and> 0 \<le> playlist_adds r"
    by simp
  have "example_output ! 1 \<in> set example_output" by (simp add: example_output_def)
  with all have nn: "0 \<le> streams (example_output ! 1)" "0 \<le> playlist_adds (example_output ! 1)"
    by blast+
  have v: "streams (example_output ! 1) = 7562" "playlist_adds (example_output ! 1) = 756"
    by (simp_all add: example_output_def)
  from strptime_june unit_draws_cycle pops variant_divisors(4) example_run nn v
  show ?thesis by (intro conjI)
qed

text \<open>
  C9: with a positive divisor, a run whose start date parses and whose days end by
  9999-12-31 returns, and the record of any day offset and any region for a track of
  popularity 0 has 0 streams and 0 playlist adds, whatever the generator draws.
\<close>

theorem zero_popularity_zero_counts:
  assumes "0 < PLAYLIST_ADDS_DIVISOR cfg"
    and "strptime s = Inr start" and "start + n - 1 \<le> MAXORDINAL"
    and "k < nat n" and "ti < length trks" and "ri < length regs"
    and "popularity (trks ! ti) = 0"
  shows "\<exists>recs g'. generate_streaming_data cfg trks n s regs g = Inr (recs, g')
           \<and> (k * length trks + ti) * length regs + ri < length recs
           \<and> track_id (recs ! ((k * length trks + ti) * length regs + ri)) = track_id (trks ! ti)
           \<and> date (recs ! ((k * length trks + ti) * length regs + ri)) = start + int k
           \<and> region (recs ! ((k * length trks + ti) * length regs + ri)) = regs ! ri
           \<and> streams (recs ! ((k * length trks + ti) * length regs + ri)) = 0
           \<and> playlist_adds (recs ! ((k * length trks + ti) * length regs + ri)) = 0"
proof -
  let ?i = "(k * length trks + ti) * length regs + ri"
  from assms(1) have "PLAYLIST_ADDS_DIVISOR cfg \<noteq> 0" by simp
  from generate_returns [OF assms(2) this assms(3)] obtain recs g' where
    run: "generate_streaming_data cfg trks n s regs g = Inr (recs, g')"
    by blast
  have k: "k < length (range n)" using assms(4) by (simp add: range_def)
  have rk: "range n ! k = k" using assms(4) by (simp add: range_def)
  note t = triples_nth_composed [OF k assms(5,6), of start]
  have len: "?i < length recs"
    using triples_index_bound [OF k assms(5,6)]
    by (simp add: generate_records(3) [OF run assms(2)] range_def)
  from generate_nth [OF run assms(2) len] t rk assms(7)
  have "track_id (recs ! ?i) = track_id (trks ! ti) \<and> date (recs ! ?i) = start + int k
           \<and> region (recs ! ?i) = regs ! ri \<and> streams (recs ! ?i) = 0 \<and> playlist_adds (recs ! ?i) = 0"
    by (simp add: triple_record_def layered_streams_zero derived_adds_zero)
  with run len show ?thesis by blast
qed

text \<open>The last record of the example run belongs to the track of popularity 0.\<close>

theorem zero_popularity_zero_counts_witness:
  "strptime ''2024-06-08'' = Inr 739045
   \<and> PLAYLIST_ADDS_DIVISOR cfg_example = 10
   \<and> popularity ([track_a, track_zero] ! 1) = 0
   \<and> generate_streaming_data cfg_example [track_a, track_zero] 2 ''2024-06-08'' [''US'', ''GB'']
        cycle_rng = Inr (example_output, advance 33 cycle_rng)
   \<and> track_id (example_output ! 7) = ''t2'' \<and> region (example_output ! 7) = ''GB''
   \<and> date (example_output ! 7) = 739046
   \<and> streams (example_output ! 7) = 0 \<and> playlist_adds (example_output ! 7) = 0"
proof -
  have pop: "popularity ([track_a, track_zero] ! 1) = 0" by (simp add: track_zero_def)
  have "\<exists>recs g'. generate_streaming_data cfg_example [track_a, track_zero] 2 ''2024-06-08''
            [''US'', ''GB''] cycle_rng = Inr (recs, g')
           \<and> (1 * length [track_a, track_zero] + 1) * length [''US'', ''GB''] + 1 < length recs
           \<and> track_id (recs ! ((1 * length [track_a, track_zero] + 1) * length [''US'', ''GB''] + 1))
               = track_id ([track_a, track_zero] ! 1)
           \<and> date (recs ! ((1 * length [track_a, track_zero] + 1) * length [''US'', ''GB''] + 1))
               = 739045 + int 1
           \<and> region (recs ! ((1 * length [track_a, track_zero] + 1) * length [''US'', ''GB''] + 1))
               = [''US'', ''GB''] ! 1
           \<and> streams (recs ! ((1 * length [track_a, track_zero] + 1) * length [''US'', ''GB''] + 1)) = 0
           \<and> playlist_adds
               (recs ! ((1 * length [track_a, track_zero] + 1) * length [''US'', ''GB''] + 1)) = 0"
    by (rule zero_popularity_zero_counts [OF _ strptime_june _ _ _ _ pop])
       (simp_all add: MAXORDINAL_def cfg_example_def)
  then obtain recs g' where
    r: "generate_streaming_data cfg_example [track_a, track_zero] 2 ''2024-06-08''
            [''US'', ''GB''] cycle_rng = Inr (recs, g')"
    and c: "track_id (recs ! ((1 * length [track_a, track_zero] + 1) * length [''US'', ''GB''] + 1))
               = track_id ([track_a, track_zero] ! 1)"
      "date (recs ! ((1 * length [track_a, track_zero] + 1) * length [''US'', ''GB''] + 1))
               = 739045 + int 1"
      "region (recs ! ((1 * length [track_a, track_zero] + 1) * length [''US'', ''GB''] + 1))
               = [''US'', ''GB''] ! 1"
      "streams (recs ! ((1 * length [track_a, track_zero] + 1) * length [''US'', ''GB''] + 1)) = 0"
      "playlist_adds
               (recs ! ((1 * length [track_a, track_zero] + 1) * length [''US'', ''GB''] + 1)) = 0"
    by blast
  from r have recs: "recs = example_output" by (simp add: example_run)
  have idx: "(1 * length [track_a, track_zero] + 1) * length [''US'', ''GB''] + 1 = (7::nat)"
    by simp
  from c have z: "track_id (example_output ! 7) = ''t2''" "region (example_output ! 7) = ''GB''"
    "date (example_output ! 7) = 739046"
    "streams (example_output ! 7) = 0" "playlist_adds (example_output ! 7) = 0"
    unfolding recs idx by (simp_all add: track_zero_def)
  from strptime_june variant_divisors(4) pop example_run z show ?thesis by (intro conjI)
qed

section \<open>The loader\<close>

text \<open>
  C7: when the file can be read, the loader returns the frame as it was read, with every
  row in place, if the four required columns are among its columns; otherwise it raises
  one ValueError whose message is \<^verbatim>\<open>Missing required columns: \<close> followed by the list of
  all the missing required columns, so that the message contains the quoted name of each
  of them.
\<close>

theorem load_reports_all_missing_columns:
  assumes "read_csv path = Inr df"
  shows "(set required_columns \<subseteq> set (columns df)
            \<longrightarrow> load_spotify_dataset read_csv path = Inr df)
       \<and> (\<not> set required_columns \<subseteq> set (columns df)
            \<longrightarrow> (\<exists>msg. load_spotify_dataset read_csv path = Inl (ValueError msg)
                   \<and> msg = ''Missing required columns: ''
                            @ repr_list (filter (\<lambda>col. col \<notin> set (columns df)) required_columns)
                   \<and> (\<forall>col \<in> set required_columns.
                         col \<notin> set (columns df) \<longrightarrow> sublist (repr_str col) msg)))"
proof (intro conjI impI)
  assume "set required_columns \<subseteq> set (columns df)"
  then have "filter (\<lambda>col. col \<notin> set (columns df)) required_columns = []"
    by (auto simp: filter_empty_conv)
  then show "load_spotify_dataset read_csv path = Inr df"
    by (simp add: load_spotify_dataset_def assms)
next
  let ?missing = "filter (\<lambda>col. col \<notin> set (columns df)) required_columns"
  let ?msg = "''Missing required columns: '' @ repr_list ?missing"
  assume "\<not> set required_columns \<subseteq> set (columns df)"
  then have "?missing \<noteq> []" by (auto simp: filter_empty_conv)
  then have "load_spotify_dataset read_csv path = Inl (ValueError ?msg)"
    by (simp add: load_spotify_dataset_def assms Let_def)
  moreover have "sublist (repr_str col) ?msg"
    if "col \<in> set required_columns" "col \<notin> set (columns df)" for col
  proof -
    from that have "col \<in> set ?missing" by simp
    then have "sublist (repr_str col) (repr_list ?missing)" by (rule repr_list_names)
    from sublist_embed [OF this, of "''Missing required columns: ''" "[]"]
    show ?thesis by simp
  qed
  ultimately show "\<exists>msg. load_spotify_dataset read_csv path = Inl (ValueError msg)
                   \<and> msg = ?msg
                   \<and> (\<forall>col \<in> set required_columns.
                         col \<notin> set (columns df) \<longrightarrow> sublist (repr_str col) msg)"
    by blast
qed

text \<open>A frame without \<^verbatim>\<open>artists\<close> and \<^verbatim>\<open>popularity\<close>, and a complete one.\<close>

theorem load_reports_all_missing_columns_witness:
  "read_always df_incomplete ''tracks.csv'' = Inr df_incomplete
   \<and> load_spotify_dataset (read_always df_incomplete) ''tracks.csv''
       = Inl (ValueError ''Missing required columns: ['artists', 'popularity']'')
   \<and> sublist (repr_str ''artists'') ''Missing required columns: ['artists', 'popularity']''
   \<and> sublist (repr_str ''popularity'') ''Missing required columns: ['artists', 'popularity']''
   \<and> read_always df_complete ''tracks.csv'' = Inr df_complete
   \<and> load_spotify_dataset (read_always df_complete) ''tracks.csv'' = Inr df_complete
   \<and> rows df_complete = [track_a, track_zero]"
proof -
  have r1: "read_always df_incomplete ''tracks.csv'' = Inr df_incomplete"
    and r2: "read_always df_complete ''tracks.csv'' = Inr df_complete"
    by (simp_all add: read_always_def)
  have m: "''Missing required columns: ''
             @ repr_list (filter (\<lambda>col. col \<notin> set (columns df_incomplete)) required_columns)
           = ''Missing required columns: ['artists', 'popularity']''"
    by (simp add: df_incomplete_def required_columns_def repr_list_def repr_str_def)
  have n: "\<not> set required_columns \<subseteq> set (columns df_incomplete)"
    and c: "''artists'' \<in> set required_columns" "''artists'' \<notin> set (columns df_incomplete)"
      "''popularity'' \<in> set required_columns" "''popularity'' \<notin> set (columns df_incomplete)"
    by (simp_all add: df_incomplete_def required_columns_def)
  have y: "set required_columns \<subseteq> set (columns df_complete)"
    by (simp add: df_complete_def required_columns_def)
  from load_reports_all_missing_columns
    [where read_csv = "read_always df_incomplete" and path = "''tracks.csv''"
       and df = df_incomplete, OF r1] n
  obtain msg where
    l: "load_spotify_dataset (read_always df_incomplete) ''tracks.csv'' = Inl (ValueError msg)"
    and msg: "msg = ''Missing required columns: ''
             @ repr_list (filter (\<lambda>col. col \<notin> set (columns df_incomplete)) required_columns)"
    and all: "\<forall>col \<in> set required_columns.
                col \<notin> set (columns df_incomplete) \<longrightarrow> sublist (repr_str col) msg"
    by blast
  from msg have msg': "msg = ''Missing required columns: ['artists', 'popularity']''"
    by (simp only: m)
  from l have a: "load_spotify_dataset (read_always df_incomplete) ''tracks.csv''
       = Inl (ValueError ''Missing required columns: ['artists', 'popularity']'')"
    by (simp only: msg')
  from all c have "sublist (repr_str ''artists'') msg" "sublist (repr_str ''popularity'') msg"
    by blast+
  then have s: "sublist (repr_str ''artists'') ''Missing required columns: ['artists', 'popularity']''"
    "sublist (repr_str ''popularity'') ''Missing required columns: ['artists', 'popularity']''"
    by (simp_all only: msg')
  from load_reports_all_missing_columns
    [where read_csv = "read_always df_complete" and path = "''tracks.csv''"
       and df = df_complete, OF r2] y
  have b: "load_spotify_dataset (read_always df_complete) ''tracks.csv'' = Inr df_complete"
    by simp
  have rw: "rows df_complete = [track_a, track_zero]" by (simp add: df_complete_def)
  from r1 a s r2 b rw show ?thesis by (intro conjI)
qed

section \<open>How the simulator fails\<close>

text \<open>
  No configuration is rejected for breaking an invariant: a horizon of zero days with no
  region gives an empty output, and a base range whose minimum exceeds its maximum is
  used as it stands. A configuration that keeps the invariants can fail: a divisor of
  zero raises ZeroDivisionError at the first triple.
\<close>

theorem config_not_validated_counterexample:
  "generate_streaming_data cfg_example [track_a] 0 ''2024-06-08'' [] cycle_rng
     = Inr ([], cycle_rng)
   \<and> generate_streaming_data cfg_reversed [track_a] 1 ''2024-06-08'' [''US''] cycle_rng
     = Inr ([\<lparr>track_id = ''t1'', track_name = ''Song A'', artists = ''Artist A'', popularity = 50,
             date = 739045, streams = 33206, region = ''US'', playlist_adds = 3320\<rparr>],
           advance 5 cycle_rng)
   \<and> generate_streaming_data cfg_zero_divisor [track_a] 1 ''2024-06-08'' [''US''] cycle_rng
     = Inl ZeroDivisionError"
proof -
  have a: "generate_streaming_data cfg_example [track_a] 0 ''2024-06-08'' [] cycle_rng
     = Inr ([], cycle_rng)"
    unfolding generate_cases strptime_june by simp
  have b: "generate_streaming_data cfg_reversed [track_a] 1 ''2024-06-08'' [''US''] cycle_rng
     = Inr ([\<lparr>track_id = ''t1'', track_name = ''Song A'', artists = ''Artist A'', popularity = 50,
             date = 739045, streams = 33206, region = ''US'', playlist_adds = 3320\<rparr>],
           advance 5 cycle_rng)"
    unfolding generate_cases strptime_june
    by (simp add: single_triple variant_divisors MAXORDINAL_def variant_records variant_draws)
  have c: "generate_streaming_data cfg_zero_divisor [track_a] 1 ''2024-06-08'' [''US''] cycle_rng
     = Inl ZeroDivisionError"
    unfolding generate_cases strptime_june by (simp add: variant_divisors)
  from a b c show ?thesis by (intro conjI)
qed

text \<open>
  C8, with the failures the code has: the simulator checks no invariant of the configuration and has exactly
  three ways to fail. A start date that does not parse raises the ValueError of
  \<^verbatim>\<open>strptime\<close> before any iteration. Otherwise a horizon of zero or less returns an empty
  output, as does an empty track list or an empty region list when the days end by
  9999-12-31; a zero divisor with at least one day, one track and one region raises
  ZeroDivisionError; failing that, a day past 9999-12-31 raises OverflowError; and in
  every other case the run returns the full output. The multiplier ranges play no part.
\<close>

theorem simulator_failure_modes:
  "(\<forall>e. strptime s = Inl e
       \<longrightarrow> generate_streaming_data cfg trks n s regs g = Inl StrptimeValueError)
   \<and> (\<forall>start. strptime s = Inr start \<longrightarrow>
        (n \<le> 0 \<longrightarrow> generate_streaming_data cfg trks n s regs g = Inr ([], g))
      \<and> (0 < n \<and> (trks = [] \<or> regs = []) \<and> start + n - 1 \<le> MAXORDINAL
           \<longrightarrow> generate_streaming_data cfg trks n s regs g = Inr ([], g))
      \<and> (0 < n \<and> trks \<noteq> [] \<and> regs \<noteq> [] \<and> PLAYLIST_ADDS_DIVISOR cfg = 0
           \<longrightarrow> generate_streaming_data cfg trks n s regs g = Inl ZeroDivisionError)
      \<and> (0 < n \<and> (trks = [] \<or> regs = [] \<or> PLAYLIST_ADDS_DIVISOR cfg \<noteq> 0)
           \<and> MAXORDINAL < start + n - 1
           \<longrightarrow> generate_streaming_data cfg trks n s regs g = Inl OverflowError)
      \<and> (0 < n \<and> PLAYLIST_ADDS_DIVISOR cfg \<noteq> 0 \<and> start + n - 1 \<le> MAXORDINAL
           \<longrightarrow> (\<exists>recs g'. generate_streaming_data cfg trks n s regs g = Inr (recs, g')
                  \<and> length recs = nat n * length trks * length regs)))"
proof (intro conjI allI impI)
  fix e assume "strptime s = Inl e"
  then show "generate_streaming_data cfg trks n s regs g = Inl StrptimeValueError"
    by (simp add: generate_cases)
next
  fix start assume "strptime s = Inr start" "n \<le> 0"
  then show "generate_streaming_data cfg trks n s regs g = Inr ([], g)"
    by (simp add: generate_cases)
next
  fix start
  assume "strptime s = Inr start"
    "0 < n \<and> (trks = [] \<or> regs = []) \<and> start + n - 1 \<le> MAXORDINAL"
  then show "generate_streaming_data cfg trks n s regs g = Inr ([], g)"
    by (auto simp: generate_cases triples_idle advance_0)
next
  fix start
  assume "strptime s = Inr start"
    "0 < n \<and> trks \<noteq> [] \<and> regs \<noteq> [] \<and> PLAYLIST_ADDS_DIVISOR cfg = 0"
  then show "generate_streaming_data cfg trks n s regs g = Inl ZeroDivisionError"
    by (simp add: generate_cases)
next
  fix start
  assume "strptime s = Inr start"
    "0 < n \<and> (trks = [] \<or> regs = [] \<or> PLAYLIST_ADDS_DIVISOR cfg \<noteq> 0)
       \<and> MAXORDINAL < start + n - 1"
  then show "generate_streaming_data cfg trks n s regs g = Inl OverflowError"
    by (auto simp: generate_cases)
next
  fix start
  assume "strptime s = Inr start"
    "0 < n \<and> PLAYLIST_ADDS_DIVISOR cfg \<noteq> 0 \<and> start + n - 1 \<le> MAXORDINAL"
  then show "\<exists>recs g'. generate_streaming_data cfg trks n s regs g = Inr (recs, g')
                  \<and> length recs = nat n * length trks * length regs"
    by (simp add: generate_cases length_records_of length_triples range_def)
qed

text \<open>One run for each way to fail, and two that return an empty output.\<close>

theorem simulator_failure_modes_witness:
  "strptime ''2024-13-01'' = Inl StrptimeValueError
   \<and> generate_streaming_data cfg_example [track_a] 1 ''2024-13-01'' [''US''] cycle_rng
       = Inl StrptimeValueError
   \<and> strptime ''2024-06-08'' = Inr 739045
   \<and> generate_streaming_data cfg_example [track_a] 0 ''2024-06-08'' [''US''] cycle_rng
       = Inr ([], cycle_rng)
   \<and> generate_streaming_data cfg_zero_divisor [] 1 ''2024-06-08'' [''US''] cycle_rng
       = Inr ([], cycle_rng)
   \<and> PLAYLIST_ADDS_DIVISOR cfg_zero_divisor = 0
   \<and> generate_streaming_data cfg_zero_divisor [track_a] 1 ''2024-06-08'' [''US''] cycle_rng
       = Inl ZeroDivisionError
   \<and> strptime ''9999-12-31'' = Inr 3652059
   \<and> generate_streaming_data cfg_example [track_a] 2 ''9999-12-31'' [''US''] cycle_rng
       = Inl OverflowError"
proof -
  from simulator_failure_modes
    [where s = "''2024-13-01''" and cfg = cfg_example and trks = "[track_a]" and n = 1
       and regs = "[''US'']" and g = cycle_rng]
  have a: "generate_streaming_data cfg_example [track_a] 1 ''2024-13-01'' [''US''] cycle_rng
       = Inl StrptimeValueError"
    by (simp add: strptime_more)
  from simulator_failure_modes
    [where s = "''2024-06-08''" and cfg = cfg_example and trks = "[track_a]" and n = 0
       and regs = "[''US'']" and g = cycle_rng]
  have b: "generate_streaming_data cfg_example [track_a] 0 ''2024-06-08'' [''US''] cycle_rng
       = Inr ([], cycle_rng)"
    by (simp add: strptime_june)
  from simulator_failure_modes
    [where s = "''2024-06-08''" and cfg = cfg_zero_divisor and trks = "[]" and n = 1
       and regs = "[''US'']" and g = cycle_rng]
  have c: "generate_streaming_data cfg_zero_divisor [] 1 ''2024-06-08'' [''US''] cycle_rng
       = Inr ([], cycle_rng)"
    by (simp add: strptime_june MAXORDINAL_def)
  from simulator_failure_modes
    [where s = "''2024-06-08''" and cfg = cfg_zero_divisor and trks = "[track_a]" and n = 1
       and regs = "[''US'']" and g = cycle_rng]
  have d: "generate_streaming_data cfg_zero_divisor [track_a] 1 ''2024-06-08'' [''US''] cycle_rng
       = Inl ZeroDivisionError"
    by (simp add: strptime_june variant_divisors)
  from simulator_failure_modes
    [where s = "''9999-12-31''" and cfg = cfg_example and trks = "[track_a]" and n = 2
       and regs = "[''US'']" and g = cycle_rng]
  have e: "generate_streaming_data cfg_example [track_a] 2 ''9999-12-31'' [''US''] cycle_rng
       = Inl OverflowError"
    by (simp add: strptime_more variant_divisors MAXORDINAL_def)
  from strptime_more(1) a strptime_june b c variant_divisors(3) d strptime_more(2) e
  show ?thesis by (intro conjI)
qed

end
